theory Spec2Isabelle
  imports Complex_Main "HOL-Library.Word"
begin

unbundle bit_operations_syntax

section \<open>Machine types\<close>

text \<open>
  \<open>int64\<close> and \<open>uint64\<close> are 64-bit words and \<open>unsigned short\<close> is a 16-bit word.
  PostgreSQL and its extensions are compiled with \<open>-fwrapv\<close>, so signed 64-bit
  arithmetic wraps around; \<open>sint\<close> reads a word as a signed value, and the signed
  comparisons are \<open>word_sle\<close> and \<open>word_sless\<close>.
\<close>

type_synonym int64 = "64 word"
type_synonym uint64 = "64 word"
type_synonym ushort = "16 word"

text \<open>
  A C \<open>double\<close> is modelled as a real number or one of the three special values of
  IEEE 754. The operations below give the exact result on finite values, with the special
  values following the rules of C99 Annex F; the code rounds every result to binary64,
  which \<open>rnd\<close> does. \<open>binary64\<close> rounds a real number to 53 significant bits, to nearest and
  ties to even. The exponent range is not limited, so overflow to infinity and gradual
  underflow are outside the model, and the two zeros are not told apart (a zero divisor
  counts as \<open>+0\<close>).
\<close>

datatype double = Fin real | PInf | NInf | NaN

fun dneg :: "double \<Rightarrow> double" where
  "dneg (Fin x) = Fin (- x)"
| "dneg PInf = NInf"
| "dneg NInf = PInf"
| "dneg NaN = NaN"

fun dadd :: "double \<Rightarrow> double \<Rightarrow> double" where
  "dadd (Fin x) (Fin y) = Fin (x + y)"
| "dadd NaN _ = NaN"
| "dadd _ NaN = NaN"
| "dadd PInf NInf = NaN"
| "dadd NInf PInf = NaN"
| "dadd PInf _ = PInf"
| "dadd _ PInf = PInf"
| "dadd NInf _ = NInf"
| "dadd _ NInf = NInf"

definition dsub :: "double \<Rightarrow> double \<Rightarrow> double" where
  "dsub x y = dadd x (dneg y)"

text \<open>The infinity whose sign is that of a nonzero real; a zero gives NaN.\<close>

definition signed_inf :: "real \<Rightarrow> double" where
  "signed_inf x = (if x = 0 then NaN else if 0 < x then PInf else NInf)"

fun dmul :: "double \<Rightarrow> double \<Rightarrow> double" where
  "dmul (Fin x) (Fin y) = Fin (x * y)"
| "dmul NaN _ = NaN"
| "dmul _ NaN = NaN"
| "dmul (Fin x) PInf = signed_inf x"
| "dmul (Fin x) NInf = signed_inf (- x)"
| "dmul PInf (Fin y) = signed_inf y"
| "dmul NInf (Fin y) = signed_inf (- y)"
| "dmul PInf PInf = PInf"
| "dmul NInf NInf = PInf"
| "dmul PInf NInf = NInf"
| "dmul NInf PInf = NInf"

fun ddiv :: "double \<Rightarrow> double \<Rightarrow> double" where
  "ddiv (Fin x) (Fin y) = (if y = 0 then signed_inf x else Fin (x / y))"
| "ddiv NaN _ = NaN"
| "ddiv _ NaN = NaN"
| "ddiv (Fin x) _ = Fin 0"
| "ddiv PInf (Fin y) = (if 0 \<le> y then PInf else NInf)"
| "ddiv NInf (Fin y) = (if 0 \<le> y then NInf else PInf)"
| "ddiv _ _ = NaN"

text \<open>The comparisons \<open><\<close> and \<open><=\<close> of C: every comparison with NaN is false.\<close>

fun dlt :: "double \<Rightarrow> double \<Rightarrow> bool" where
  "dlt (Fin x) (Fin y) = (x < y)"
| "dlt NaN _ = False"
| "dlt _ NaN = False"
| "dlt PInf _ = False"
| "dlt _ NInf = False"
| "dlt _ _ = True"

fun dle :: "double \<Rightarrow> double \<Rightarrow> bool" where
  "dle (Fin x) (Fin y) = (x \<le> y)"
| "dle NaN _ = False"
| "dle _ NaN = False"
| "dle NInf _ = True"
| "dle _ PInf = True"
| "dle _ _ = False"

definition dgt :: "double \<Rightarrow> double \<Rightarrow> bool" where
  "dgt x y = dlt y x"

definition dge :: "double \<Rightarrow> double \<Rightarrow> bool" where
  "dge x y = dle y x"

text \<open>Rounding to binary64: the nearest value with 53 significant bits, ties to even.\<close>

definition round_even :: "real \<Rightarrow> int" where
  "round_even x =
     (let f = \<lfloor>x\<rfloor>; d = x - of_int f
      in if d < 1 / 2 then f else if 1 / 2 < d then f + 1 else if even f then f else f + 1)"

definition binary64 :: "real \<Rightarrow> real" where
  "binary64 x =
     (if x = 0 then 0
      else let e = \<lfloor>log 2 \<bar>x\<bar>\<rfloor> - 52
           in of_int (round_even (x / 2 powi e)) * 2 powi e)"

fun rnd :: "double \<Rightarrow> double" where
  "rnd (Fin x) = Fin (binary64 x)"
| "rnd d = d"

subsection \<open>The functions of \<open>math.h\<close>\<close>

text \<open>
  The functions give the exact value; the samplers round it with \<open>rnd\<close>, which takes
  \<open>exp\<close>, \<open>log\<close>, \<open>sqrt\<close>, \<open>sin\<close> and \<open>pow\<close> as correctly rounded (IEEE 754 requires it of
  \<open>sqrt\<close> only). \<open>floor\<close> is exact. \<open>M_PI\<close> is the \<open>double\<close> \<open>0x1.921fb54442d18p+1\<close>.
\<close>

fun exp_c :: "double \<Rightarrow> double" where
  "exp_c (Fin x) = Fin (exp x)"
| "exp_c PInf = PInf"
| "exp_c NInf = Fin 0"
| "exp_c NaN = NaN"

fun log_c :: "double \<Rightarrow> double" where
  "log_c (Fin x) = (if x < 0 then NaN else if x = 0 then NInf else Fin (ln x))"
| "log_c PInf = PInf"
| "log_c NInf = NaN"
| "log_c NaN = NaN"

fun sqrt_c :: "double \<Rightarrow> double" where
  "sqrt_c (Fin x) = (if x < 0 then NaN else Fin (sqrt x))"
| "sqrt_c PInf = PInf"
| "sqrt_c NInf = NaN"
| "sqrt_c NaN = NaN"

fun sin_c :: "double \<Rightarrow> double" where
  "sin_c (Fin x) = Fin (sin x)"
| "sin_c _ = NaN"

fun floor_c :: "double \<Rightarrow> double" where
  "floor_c (Fin x) = Fin (of_int \<lfloor>x\<rfloor>)"
| "floor_c d = d"

definition M_PI :: double where
  "M_PI = Fin (7074237752028440 / 2 ^ 51)"

text \<open>
  \<open>pow\<close> with the special cases of C99 F.9.4.4: \<open>pow(x, 0)\<close> and \<open>pow(1, y)\<close> are 1
  even for a NaN argument, \<open>pow(0, y)\<close> is \<open>+inf\<close> for negative \<open>y\<close>, and a negative
  finite base has a power only for an integral exponent.
\<close>

definition is_integral :: "real \<Rightarrow> bool" where
  "is_integral y = (of_int \<lfloor>y\<rfloor> = y)"

fun pow_c :: "double \<Rightarrow> double \<Rightarrow> double" where
  "pow_c (Fin x) (Fin y) =
     (if y = 0 \<or> x = 1 then Fin 1
      else if x = 0 then (if y < 0 then PInf else Fin 0)
      else if 0 < x then Fin (x powr y)
      else if is_integral y then Fin (x powi \<lfloor>y\<rfloor>)
      else NaN)"
| "pow_c NaN (Fin y) = (if y = 0 then Fin 1 else NaN)"
| "pow_c (Fin x) NaN = (if x = 1 then Fin 1 else NaN)"
| "pow_c (Fin x) PInf =
     (if \<bar>x\<bar> = 1 then Fin 1 else if \<bar>x\<bar> < 1 then Fin 0 else PInf)"
| "pow_c (Fin x) NInf =
     (if \<bar>x\<bar> = 1 then Fin 1 else if \<bar>x\<bar> < 1 then PInf else Fin 0)"
| "pow_c PInf (Fin y) = (if y = 0 then Fin 1 else if y < 0 then Fin 0 else PInf)"
| "pow_c NInf (Fin y) =
     (if y = 0 then Fin 1 else if y < 0 then Fin 0
      else if is_integral y \<and> odd \<lfloor>y\<rfloor> then NInf else PInf)"
| "pow_c PInf PInf = PInf"
| "pow_c NInf PInf = PInf"
| "pow_c PInf NInf = Fin 0"
| "pow_c NInf NInf = Fin 0"
| "pow_c _ _ = NaN"

subsection \<open>Conversions between \<open>int64\<close> and \<open>double\<close>\<close>

text \<open>
  The value of an \<open>int64\<close> as a real number; the conversion to \<open>double\<close> rounds it.
\<close>

definition int64_to_double :: "int64 \<Rightarrow> double" where
  "int64_to_double w = Fin (real_of_int (sint w))"

text \<open>
  The cast \<open>(int64) d\<close> truncates towards zero. Its behaviour is undefined for a NaN, an
  infinity and a value whose integral part is not an \<open>int64\<close>: the model returns \<open>None\<close>.
\<close>

definition trunc :: "real \<Rightarrow> int" where
  "trunc x = (if 0 \<le> x then \<lfloor>x\<rfloor> else \<lceil>x\<rceil>)"

fun double_to_int64 :: "double \<Rightarrow> int64 option" where
  "double_to_int64 (Fin x) =
     (if - (2 ^ 63) \<le> trunc x \<and> trunc x < 2 ^ 63 then Some (word_of_int (trunc x))
      else None)"
| "double_to_int64 _ = None"

section \<open>The random state and the uniform source\<close>

record RandomState =
  xseed :: "ushort \<times> ushort \<times> ushort"

text \<open>
  The errors raised with \<open>elog(ERROR, ...)\<close>: \<open>SeedingFailed\<close> is "could not generate
  random seed", \<open>InvalidParameter\<close> is "zipfian parameter must be in range".
  \<open>UndefinedConversion\<close> marks a cast to \<open>int64\<close> whose behaviour C leaves undefined.
\<close>

datatype error = SeedingFailed | InvalidParameter | UndefinedConversion

text \<open>
  \<open>initRandomState\<close> asks \<open>pg_strong_random\<close> for eight bytes. The outcome of that call is
  an input of the model: \<open>None\<close> when the entropy source fails, \<open>Some iseed\<close> otherwise.
  The function overwrites the process-wide \<open>base_random_sequence\<close>, passed here as
  \<open>base\<close>.
\<close>

definition initRandomState :: "uint64 option \<Rightarrow> RandomState \<Rightarrow> error + RandomState" where
  "initRandomState entropy base =
     (case entropy of
        None \<Rightarrow> Inl SeedingFailed
      | Some iseed \<Rightarrow>
          Inr (base\<lparr>xseed :=
            (ucast (iseed AND 0xFFFF),
             ucast (drop_bit 16 iseed AND 0xFFFF),
             ucast (drop_bit 32 iseed AND 0xFFFF))\<rparr>))"

text \<open>
  \<open>pg_erand48\<close> is PostgreSQL's port of POSIX \<open>erand48\<close>: the 48-bit state
  \<open>X = xseed[2] xseed[1] xseed[0]\<close> becomes \<open>(0x5DEECE66D * X + 0xB) mod 2^48\<close>, and the
  result is the new state scaled by \<open>2^-48\<close>, which a \<open>double\<close> holds exactly.
\<close>

definition seed_bits :: "RandomState \<Rightarrow> uint64" where
  "seed_bits st =
     (case xseed st of (x0, x1, x2) \<Rightarrow>
        ucast x0 OR push_bit 16 (ucast x1) OR push_bit 32 (ucast x2))"

definition dorand48 :: "RandomState \<Rightarrow> uint64" where
  "dorand48 st = (seed_bits st * 0x5DEECE66D + 0xB) AND 0xFFFFFFFFFFFF"

definition pg_erand48 :: "RandomState \<Rightarrow> double \<times> RandomState" where
  "pg_erand48 st =
     (let x = dorand48 st
      in (Fin (real (unat x) / 2 ^ 48),
          st\<lparr>xseed :=
            (ucast (x AND 0xFFFF),
             ucast (drop_bit 16 x AND 0xFFFF),
             ucast (drop_bit 32 x AND 0xFFFF))\<rparr>))"

section \<open>The samplers\<close>

text \<open>
  \<open>Assert\<close> is a no-op in a production build, so the samplers do not check their
  parameter. Each sampler returns its value, or the undefined conversion, together with
  the advanced state. Every arithmetic operation, every call of \<open>math.h\<close> and the
  conversion of \<open>max - min + 1\<close> to \<open>double\<close> is rounded to binary64 on its own: no
  multiplication is fused with an addition and no intermediate value is kept in a wider
  format.
\<close>

text \<open>The value \<open>rand\<close> of \<open>getExponentialRand\<close> for the draw \<open>e\<close>.\<close>

definition exponential_rand_binary64 :: "double \<Rightarrow> double \<Rightarrow> double" where
  "exponential_rand_binary64 parameter e =
     (let cut = rnd (exp_c (dneg parameter));
          uniform = rnd (dsub (Fin 1) e)
      in rnd (ddiv (dneg (rnd (log_c
           (rnd (dadd cut (rnd (dmul (rnd (dsub (Fin 1) cut)) uniform))))))) parameter))"

definition getExponentialRand ::
  "RandomState \<Rightarrow> int64 \<Rightarrow> int64 \<Rightarrow> double \<Rightarrow> (error + int64) \<times> RandomState" where
  "getExponentialRand random_state minv maxv parameter =
     (let (e, st1) = pg_erand48 random_state;
          rand = exponential_rand_binary64 parameter e
      in (case double_to_int64 (rnd (dmul (rnd (int64_to_double (maxv - minv + 1))) rand)) of
            None \<Rightarrow> (Inl UndefinedConversion, st1)
          | Some k \<Rightarrow> (Inr (minv + k), st1)))"

text \<open>
  The \<open>do ... while\<close> loop of \<open>getGaussianRand\<close>: \<open>None\<close> is the loop that never leaves.
\<close>

partial_function (option) gaussian_loop ::
  "double \<Rightarrow> RandomState \<Rightarrow> (double \<times> RandomState) option" where
  "gaussian_loop parameter st =
     (let (e1, st1) = pg_erand48 st;
          rand1 = rnd (dsub (Fin 1) e1);
          (e2, st2) = pg_erand48 st1;
          rand2 = rnd (dsub (Fin 1) e2);
          var_sqrt = rnd (sqrt_c (rnd (dmul (Fin (- 2)) (rnd (log_c rand1)))));
          stdev = rnd (dmul var_sqrt
                    (rnd (sin_c (rnd (dmul (rnd (dmul (Fin 2) M_PI)) rand2)))))
      in if dlt stdev (dneg parameter) \<or> dge stdev parameter
         then gaussian_loop parameter st2
         else Some (stdev, st2))"

text \<open>
  The part of \<open>getGaussianRand\<close> after the loop: the normalised \<open>rand\<close> and the value
  returned for the accepted \<open>stdev\<close>.
\<close>

definition gaussian_finish_binary64 ::
  "double \<Rightarrow> int64 \<Rightarrow> int64 \<Rightarrow> double \<Rightarrow> double \<times> (error + int64)" where
  "gaussian_finish_binary64 stdev minv maxv parameter =
     (let rand = rnd (ddiv (rnd (dadd stdev parameter)) (rnd (dmul parameter (Fin 2))))
      in (rand,
          case double_to_int64 (rnd (dmul (rnd (int64_to_double (maxv - minv + 1))) rand)) of
            None \<Rightarrow> Inl UndefinedConversion
          | Some k \<Rightarrow> Inr (minv + k)))"

definition getGaussianRand ::
  "RandomState \<Rightarrow> int64 \<Rightarrow> int64 \<Rightarrow> double \<Rightarrow> ((error + int64) \<times> RandomState) option" where
  "getGaussianRand random_state minv maxv parameter =
     (case gaussian_loop parameter random_state of
        None \<Rightarrow> None
      | Some (stdev, st') \<Rightarrow>
          Some (snd (gaussian_finish_binary64 stdev minv maxv parameter), st'))"

text \<open>
  The body of the \<open>while (true)\<close> loop of \<open>computeIterativeZipfian\<close> for the draws \<open>u\<close> and
  \<open>v\<close>: the rank \<open>x\<close>, and whether the loop is left by \<open>break\<close>. The value
  \<open>b = pow(2.0, s - 1.0)\<close>, which the code computes once before the loop, is the same in
  every iteration.
\<close>

definition zipfian_iteration_binary64 ::
  "int64 \<Rightarrow> double \<Rightarrow> double \<Rightarrow> double \<Rightarrow> double \<times> bool" where
  "zipfian_iteration_binary64 n s u v =
     (let b = rnd (pow_c (Fin 2) (rnd (dsub s (Fin 1))));
          x = floor_c (rnd (pow_c u (rnd (ddiv (Fin (- 1)) (rnd (dsub s (Fin 1)))))));
          t = rnd (pow_c (rnd (dadd (Fin 1) (rnd (ddiv (Fin 1) x)))) (rnd (dsub s (Fin 1))))
      in (x, dle (rnd (ddiv (rnd (dmul (rnd (dmul v x)) (rnd (dsub t (Fin 1)))))
                        (rnd (dsub b (Fin 1)))))
                 (rnd (ddiv t b))
             \<and> dle x (rnd (int64_to_double n))))"

partial_function (option) zipfian_loop ::
  "int64 \<Rightarrow> double \<Rightarrow> RandomState \<Rightarrow> (double \<times> RandomState) option" where
  "zipfian_loop n s st =
     (let (u, st1) = pg_erand48 st;
          (v, st2) = pg_erand48 st1;
          (x, leave) = zipfian_iteration_binary64 n s u v
      in if leave then Some (x, st2) else zipfian_loop n s st2)"

definition computeIterativeZipfian ::
  "RandomState \<Rightarrow> int64 \<Rightarrow> double \<Rightarrow> ((error + int64) \<times> RandomState) option" where
  "computeIterativeZipfian random_state n s =
     (if n \<le>s 1 then Some (Inr 1, random_state)
      else (case zipfian_loop n s random_state of
              None \<Rightarrow> None
            | Some (x, st') \<Rightarrow>
                (case double_to_int64 x of
                   None \<Rightarrow> Some (Inl UndefinedConversion, st')
                 | Some k \<Rightarrow> Some (Inr k, st'))))"

definition getZipfianRand ::
  "RandomState \<Rightarrow> int64 \<Rightarrow> int64 \<Rightarrow> double \<Rightarrow> ((error + int64) \<times> RandomState) option" where
  "getZipfianRand random_state minv maxv s =
     (let n = maxv - minv + 1
      in (case computeIterativeZipfian random_state n s of
            None \<Rightarrow> None
          | Some (Inl e, st') \<Rightarrow> Some (Inl e, st')
          | Some (Inr r, st') \<Rightarrow> Some (Inr (minv - 1 + r), st')))"

section \<open>The SQL entry points\<close>

text \<open>
  Each entry point takes the current \<open>base_random_sequence\<close> and the outcome of
  \<open>pg_strong_random\<close>, and returns the result with the \<open>base_random_sequence\<close> it leaves
  behind. An \<open>elog(ERROR, ...)\<close> leaves the function at once.
\<close>

text \<open>The literal \<open>1.001\<close> denotes the nearest binary64 value, written here exactly.\<close>

definition MIN_ZIPFIAN_PARAM :: double where
  "MIN_ZIPFIAN_PARAM = Fin (2254051613498933 / 2251799813685248)"

definition MAX_ZIPFIAN_PARAM :: double where
  "MAX_ZIPFIAN_PARAM = Fin 1000"

definition random_exponential ::
  "RandomState \<Rightarrow> uint64 option \<Rightarrow> int64 \<Rightarrow> int64 \<Rightarrow> double
     \<Rightarrow> (error + int64) \<times> RandomState" where
  "random_exponential base entropy lb ub param =
     (case initRandomState entropy base of
        Inl e \<Rightarrow> (Inl e, base)
      | Inr seeded \<Rightarrow> getExponentialRand seeded lb ub param)"

definition random_gaussian ::
  "RandomState \<Rightarrow> uint64 option \<Rightarrow> int64 \<Rightarrow> int64 \<Rightarrow> double
     \<Rightarrow> ((error + int64) \<times> RandomState) option" where
  "random_gaussian base entropy lb ub param =
     (case initRandomState entropy base of
        Inl e \<Rightarrow> Some (Inl e, base)
      | Inr seeded \<Rightarrow> getGaussianRand seeded lb ub param)"

definition random_zipfian ::
  "RandomState \<Rightarrow> uint64 option \<Rightarrow> int64 \<Rightarrow> int64 \<Rightarrow> double
     \<Rightarrow> ((error + int64) \<times> RandomState) option" where
  "random_zipfian base entropy lb ub param =
     (if dlt param MIN_ZIPFIAN_PARAM \<or> dgt param MAX_ZIPFIAN_PARAM
      then Some (Inl InvalidParameter, base)
      else (case initRandomState entropy base of
              Inl e \<Rightarrow> Some (Inl e, base)
            | Inr seeded \<Rightarrow> getZipfianRand seeded lb ub param))"

section \<open>Notions used in the statements\<close>

text \<open>
  The state that \<open>initRandomState\<close> builds from the entropy value \<open>iseed\<close>.
\<close>

definition seeded :: "uint64 \<Rightarrow> RandomState" where
  "seeded iseed =
     \<lparr>xseed = (ucast (iseed AND 0xFFFF), ucast (drop_bit 16 iseed AND 0xFFFF),
               ucast (drop_bit 32 iseed AND 0xFFFF))\<rparr>"

text \<open>
  The next uniform draw of a state as a real number, and the state after that draw.
\<close>

definition uniform01 :: "RandomState \<Rightarrow> real" where
  "uniform01 st = real (unat (dorand48 st)) / 2 ^ 48"

definition next_state :: "RandomState \<Rightarrow> RandomState" where
  "next_state st = snd (pg_erand48 st)"

text \<open>
  The formula of the exponential sampler as the specification writes it, on reals.
\<close>

definition exponential_rand :: "real \<Rightarrow> real \<Rightarrow> real" where
  "exponential_rand parameter u =
     (let cut = exp (- parameter); uniform = 1 - u
      in - ln (cut + (1 - cut) * uniform) / parameter)"

text \<open>The shape parameter lies in \<open>[1.001, 1000.0]\<close>.\<close>

definition in_zipfian_range :: "double \<Rightarrow> bool" where
  "in_zipfian_range s = (dle MIN_ZIPFIAN_PARAM s \<and> dle s MAX_ZIPFIAN_PARAM)"

section \<open>The uniform source\<close>

lemma and_FFFF: "(w :: uint64) AND 0xFFFF = take_bit 16 w"
  by (simp add: take_bit_eq_mask mask_eq_exp_minus_1)

lemma and_FFFFFFFFFFFF: "(w :: uint64) AND 0xFFFFFFFFFFFF = take_bit 48 w"
  by (simp add: take_bit_eq_mask mask_eq_exp_minus_1)

lemma initRandomState_Some: "initRandomState (Some iseed) base = Inr (seeded iseed)"
  by (simp add: initRandomState_def seeded_def)

lemma initRandomState_None: "initRandomState None base = Inl SeedingFailed"
  by (simp add: initRandomState_def)

lemma seed_bits_seeded: "seed_bits (seeded iseed) = take_bit 48 iseed"
  unfolding seed_bits_def seeded_def and_FFFF
  apply simp
  apply (rule bit_word_eqI)
  apply (auto simp add: bit_simps)
  subgoal for n by (cases "32 \<le> n") auto
  done

lemma pg_erand48_eq: "pg_erand48 st = (Fin (uniform01 st), next_state st)"
  by (simp add: pg_erand48_def uniform01_def next_state_def Let_def)

lemma dorand48_less: "unat (dorand48 st) < 2 ^ 48"
  unfolding dorand48_def and_FFFFFFFFFFFF unsigned_take_bit_eq
  by (rule take_bit_nat_less_exp)

lemma uniform01_ge: "0 \<le> uniform01 st"
  unfolding uniform01_def by (rule divide_nonneg_nonneg) (rule of_nat_0_le_iff, simp)

lemma uniform01_less: "uniform01 st < 1"
proof -
  have "real (unat (dorand48 st)) < real (2 ^ 48)"
    using dorand48_less [of st] by (rule less_imp_of_nat_less)
  then show ?thesis unfolding uniform01_def by simp
qed

lemma ucast_low16: "(ucast (w AND 0xFFFF :: uint64) :: ushort) = ucast w"
  unfolding and_FFFF by (rule bit_word_eqI) (auto simp add: bit_simps)

lemma xseed_seeded:
  "xseed (seeded iseed) = (ucast iseed, ucast (drop_bit 16 iseed), ucast (drop_bit 32 iseed))"
  by (simp add: seeded_def ucast_low16)

text \<open>
  The entropy value \<open>0x615C0E462AA9\<close> makes the first draw 0, \<open>0xE15C0E462AA9\<close> makes it
  \<open>1/2\<close>, \<open>0x215C0E462AA9\<close> makes it \<open>3/4\<close> and \<open>0x413C6A113E0E\<close> makes it \<open>2^-48\<close>.
\<close>

lemma seeded_zero: "seeded 0x615C0E462AA9 = \<lparr>xseed = (0x2AA9, 0x0E46, 0x615C)\<rparr>"
  by (simp add: seeded_def)

lemma seeded_half: "seeded 0xE15C0E462AA9 = \<lparr>xseed = (0x2AA9, 0x0E46, 0xE15C)\<rparr>"
  by (simp add: seeded_def)

lemma draw_zero:
  "uniform01 \<lparr>xseed = (0x2AA9, 0x0E46, 0x615C)\<rparr> = 0"
  "next_state \<lparr>xseed = (0x2AA9, 0x0E46, 0x615C)\<rparr> = \<lparr>xseed = (0, 0, 0)\<rparr>"
  by (simp_all add: uniform01_def next_state_def pg_erand48_def dorand48_def seed_bits_def)

lemma draw_half:
  "uniform01 \<lparr>xseed = (0x2AA9, 0x0E46, 0xE15C)\<rparr> = 1 / 2"
  "next_state \<lparr>xseed = (0x2AA9, 0x0E46, 0xE15C)\<rparr> = \<lparr>xseed = (0, 0, 0x8000)\<rparr>"
  by (simp_all add: uniform01_def next_state_def pg_erand48_def dorand48_def seed_bits_def)

lemma draw_after_zero:
  "uniform01 \<lparr>xseed = (0, 0, 0)\<rparr> = 11 / 2 ^ 48"
  "next_state \<lparr>xseed = (0, 0, 0)\<rparr> = \<lparr>xseed = (11, 0, 0)\<rparr>"
  by (simp_all add: uniform01_def next_state_def pg_erand48_def dorand48_def seed_bits_def)

lemma draw_after_half:
  "uniform01 \<lparr>xseed = (0, 0, 0x8000)\<rparr> = 140737488355339 / 2 ^ 48"
  "next_state \<lparr>xseed = (0, 0, 0x8000)\<rparr> = \<lparr>xseed = (11, 0, 0x8000)\<rparr>"
  by (simp_all add: uniform01_def next_state_def pg_erand48_def dorand48_def seed_bits_def)

lemma seeded_three_quarters:
  "seeded 0x215C0E462AA9 = \<lparr>xseed = (0x2AA9, 0x0E46, 0x215C)\<rparr>"
  by (simp add: seeded_def)

lemma draw_three_quarters:
  "uniform01 \<lparr>xseed = (0x2AA9, 0x0E46, 0x215C)\<rparr> = 3 / 4"
  "next_state \<lparr>xseed = (0x2AA9, 0x0E46, 0x215C)\<rparr> = \<lparr>xseed = (0, 0, 0xC000)\<rparr>"
  by (simp_all add: uniform01_def next_state_def pg_erand48_def dorand48_def seed_bits_def)

lemma seeded_tiny: "seeded 0x413C6A113E0E = \<lparr>xseed = (0x3E0E, 0x6A11, 0x413C)\<rparr>"
  by (simp add: seeded_def)

lemma draw_tiny:
  "pg_erand48 \<lparr>xseed = (0x3E0E, 0x6A11, 0x413C)\<rparr> = (Fin (1 / 2 ^ 48), \<lparr>xseed = (1, 0, 0)\<rparr>)"
  "pg_erand48 \<lparr>xseed = (1, 0, 0)\<rparr>
     = (Fin (25214903928 / 2 ^ 48), \<lparr>xseed = (0xE678, 0xDEEC, 0x5)\<rparr>)"
  by (simp_all add: pg_erand48_def dorand48_def seed_bits_def)

section \<open>Signed 64-bit arithmetic\<close>

lemma sint_word_of_int_small:
  assumes "- (2 ^ 63) \<le> k" and "k < 2 ^ 63"
  shows "sint (word_of_int k :: int64) = k"
  using assms by (simp add: sint_sbintrunc' signed_take_bit_int_eq_self)

lemma sint_reversed_width:
  fixes lb ub :: int64
  assumes "sint ub < sint lb" and "- (2 ^ 63) \<le> sint ub - sint lb + 1"
  shows "sint (ub - lb + 1) = sint ub - sint lb + 1"
proof -
  have "ub - lb + 1 = word_of_int (sint ub - sint lb + 1)" by simp
  then have "sint (ub - lb + 1) = sint (word_of_int (sint ub - sint lb + 1) :: int64)" by simp
  also have "\<dots> = sint ub - sint lb + 1"
    using assms by (intro sint_word_of_int_small) auto
  finally show ?thesis .
qed

section \<open>Rounding to binary64\<close>

lemma round_even_near:
  assumes "\<bar>y - of_int n\<bar> < 1 / 2"
  shows "round_even y = n"
proof (cases "of_int n \<le> y")
  case True
  then have f: "\<lfloor>y\<rfloor> = n" using assms by (intro floor_unique) auto
  show ?thesis using assms True by (simp add: round_even_def f Let_def)
next
  case False
  then have f: "\<lfloor>y\<rfloor> = n - 1" using assms by (intro floor_unique) auto
  have "1 / 2 < y - of_int (n - 1)" using assms False by simp
  then show ?thesis by (simp add: round_even_def f Let_def)
qed

lemma floor_log2:
  assumes "2 powi k \<le> x" and "x < 2 powi (k + 1)"
  shows "\<lfloor>log 2 x\<rfloor> = k"
proof -
  have pos: "0 < x" using assms(1) zero_less_power_int [of "2 :: real" k] by linarith
  have p1: "(2 :: real) powr of_int k = 2 powi k" by (simp add: powr_real_of_int')
  have p2: "(2 :: real) powr (of_int k + 1) = 2 powi (k + 1)"
    using powr_real_of_int' [of "2 :: real" "k + 1"] by simp
  have "of_int k \<le> log 2 x" using assms(1) pos by (simp add: le_log_iff p1)
  moreover have "log 2 x < of_int k + 1" using assms(2) pos by (simp add: log_less_iff p2)
  ultimately show ?thesis by (rule floor_unique)
qed

lemma binary64_eval:
  assumes "2 powi k \<le> \<bar>x\<bar>" and "\<bar>x\<bar> < 2 powi (k + 1)"
  shows "binary64 x = of_int (round_even (x / 2 powi (k - 52))) * 2 powi (k - 52)"
proof -
  have "0 < \<bar>x\<bar>" using assms(1) zero_less_power_int [of "2 :: real" k] by linarith
  then have "x \<noteq> 0" by simp
  then show ?thesis by (simp add: binary64_def floor_log2 [OF assms] Let_def)
qed

lemma binary64_near:
  assumes "2 powi k \<le> \<bar>x\<bar>" and "\<bar>x\<bar> < 2 powi (k + 1)"
    and "\<bar>x / 2 powi (k - 52) - of_int n\<bar> < 1 / 2"
  shows "binary64 x = of_int n * 2 powi (k - 52)"
  unfolding binary64_eval [OF assms(1,2)] round_even_near [OF assms(3)] ..

lemma binary64_exact:
  assumes "2 powi k \<le> \<bar>x\<bar>" and "\<bar>x\<bar> < 2 powi (k + 1)"
    and "x = of_int n * 2 powi (k - 52)"
  shows "binary64 x = x"
proof -
  have "x / 2 powi (k - 52) = of_int n" using assms(3) by simp
  then have "\<bar>x / 2 powi (k - 52) - of_int n\<bar> < 1 / 2" by simp
  then show ?thesis using binary64_near [OF assms(1,2)] assms(3) by simp
qed

lemma binary64_0: "binary64 0 = 0"
  by (simp add: binary64_def)

lemma round_even_error: "\<bar>of_int (round_even z) - z\<bar> \<le> 1 / 2"
proof -
  have "of_int \<lfloor>z\<rfloor> \<le> z" "z < of_int \<lfloor>z\<rfloor> + 1" by linarith+
  then show ?thesis by (auto simp: round_even_def Let_def)
qed

lemma binary64_pos:
  assumes "0 < y"
  shows "0 < binary64 y"
proof -
  define k where "k = \<lfloor>log 2 y\<rfloor>"
  have "of_int k \<le> log 2 y" unfolding k_def by simp
  then have "2 powr of_int k \<le> y" using assms by (simp add: le_log_iff)
  then have lo: "2 powi k \<le> y" by (simp add: powr_real_of_int')
  define z where "z = y / 2 powi (k - 52)"
  have "2 powi k / 2 powi (k - 52) \<le> z"
    unfolding z_def using lo by (simp add: divide_right_mono)
  moreover have "(2 :: real) powi k / 2 powi (k - 52) = 2 ^ 52"
    by (simp add: power_int_diff)
  ultimately have z: "2 ^ 52 \<le> z" by simp
  have "z - 1 / 2 \<le> of_int (round_even z)" using round_even_error [of z] by linarith
  moreover have "(1 :: real) \<le> 2 ^ 52" by simp
  ultimately have "0 < (of_int (round_even z) :: real)" using z by linarith
  then have "0 < of_int (round_even z) * (2 :: real) powi (k - 52)" by simp
  moreover have "binary64 y = of_int (round_even z) * 2 powi (k - 52)"
    using assms by (simp add: binary64_def Let_def k_def z_def)
  ultimately show ?thesis by simp
qed

lemma round_even_tie:
  assumes "y = of_int n + 1 / 2" and "odd n"
  shows "round_even y = n + 1"
proof -
  have f: "\<lfloor>y\<rfloor> = n" unfolding assms(1) by (intro floor_unique) auto
  show ?thesis using assms by (simp add: round_even_def f Let_def)
qed

lemma binary64_tie:
  assumes "2 powi k \<le> \<bar>x\<bar>" and "\<bar>x\<bar> < 2 powi (k + 1)"
    and "x / 2 powi (k - 52) = of_int n + 1 / 2" and "odd n"
  shows "binary64 x = of_int (n + 1) * 2 powi (k - 52)"
  unfolding binary64_eval [OF assms(1,2)] round_even_tie [OF assms(3,4)] ..

section \<open>The exponential sampler\<close>

lemma exponential_inner:
  fixes p u :: real
  assumes p: "0 < p" and u: "0 \<le> u" "u < 1"
  shows "exp (- p) < exp (- p) + (1 - exp (- p)) * (1 - u)"
    and "exp (- p) + (1 - exp (- p)) * (1 - u) \<le> 1"
proof -
  have c1: "exp (- p) < 1" using p by simp
  have "0 < (1 - exp (- p)) * (1 - u)" using c1 u by simp
  then show "exp (- p) < exp (- p) + (1 - exp (- p)) * (1 - u)" by simp
  have "(1 - exp (- p)) * (1 - u) \<le> (1 - exp (- p)) * 1"
    using c1 u by (intro mult_left_mono) simp_all
  then show "exp (- p) + (1 - exp (- p)) * (1 - u) \<le> 1" by simp
qed

lemma exponential_rand_range:
  assumes p: "0 < p" and u: "0 \<le> u" "u < 1"
  shows "0 \<le> exponential_rand p u \<and> exponential_rand p u < 1"
proof -
  define inner where "inner = exp (- p) + (1 - exp (- p)) * (1 - u)"
  have lo: "exp (- p) < inner" and hi: "inner \<le> 1"
    unfolding inner_def using exponential_inner [OF p u] by simp_all
  have pos: "0 < inner" using lo exp_gt_zero [of "- p"] by linarith
  have l1: "ln inner \<le> 0" using pos hi by simp
  have "ln (exp (- p)) < ln inner" using lo pos by (simp del: ln_exp)
  then have l2: "- p < ln inner" by simp
  have r: "exponential_rand p u = - ln inner / p"
    by (simp add: exponential_rand_def inner_def Let_def)
  have "0 \<le> - ln inner / p" using l1 p by (simp add: divide_le_0_iff)
  moreover have "- ln inner / p < 1" using l2 p by (simp add: field_simps)
  ultimately show ?thesis using r by simp
qed

lemma exp_minus_le_quadratic:
  fixes x :: real
  assumes "0 \<le> x"
  shows "exp (- x) \<le> 1 - x + x\<^sup>2 / 2"
proof -
  have q: "1 + x + x\<^sup>2 / 2 \<le> exp x" using assms by (rule exp_lower_Taylor_quadratic)
  have pos: "0 < 1 + x + x\<^sup>2 / 2" using assms by (simp add: add_pos_nonneg)
  have "exp (- x) = 1 / exp x" by (simp add: exp_minus field_simps)
  also have "\<dots> \<le> 1 / (1 + x + x\<^sup>2 / 2)" using q pos by (simp add: frac_le)
  also have "\<dots> \<le> 1 - x + x\<^sup>2 / 2"
  proof -
    have "(1 - x + x\<^sup>2 / 2) * (1 + x + x\<^sup>2 / 2) = 1 + x ^ 4 / 4"
      by (simp add: algebra_simps power2_eq_square power4_eq_xxxx)
    then have "1 \<le> (1 - x + x\<^sup>2 / 2) * (1 + x + x\<^sup>2 / 2)" by simp
    then show ?thesis using pos by (simp add: divide_le_eq)
  qed
  finally show ?thesis .
qed

lemma exp_tiny:
  "1 - 1 / 2 ^ 53 \<le> exp (- (1 / 2 ^ 53 :: real))"
  "exp (- (1 / 2 ^ 53 :: real)) \<le> 1 - 1 / 2 ^ 53 + 1 / 2 ^ 107"
proof -
  show "1 - 1 / 2 ^ 53 \<le> exp (- (1 / 2 ^ 53 :: real))"
    using exp_minus_ge [of "1 / 2 ^ 53"] by simp
  have "exp (- (1 / 2 ^ 53 :: real)) \<le> 1 - 1 / 2 ^ 53 + (1 / 2 ^ 53)\<^sup>2 / 2"
    by (rule exp_minus_le_quadratic) simp
  also have "(1 / 2 ^ 53 :: real)\<^sup>2 / 2 = 1 / 2 ^ 107" by (simp add: power2_eq_square)
  finally show "exp (- (1 / 2 ^ 53 :: real)) \<le> 1 - 1 / 2 ^ 53 + 1 / 2 ^ 107" .
qed

lemma ln_tiny:
  "- (1 / 2 ^ 53) - 3 / 2 ^ 108 \<le> ln (1 - 1 / 2 ^ 53 :: real)"
  "ln (1 - 1 / 2 ^ 53 :: real) \<le> - (1 / 2 ^ 53)"
proof -
  define y :: real where "y = 1 / 2 ^ 53 + 3 / 2 ^ 108"
  have "exp (- y) \<le> 1 - y + y\<^sup>2 / 2" by (rule exp_minus_le_quadratic) (simp add: y_def)
  also have "\<dots> \<le> 1 - 1 / 2 ^ 53" by (simp add: y_def power2_eq_square)
  finally have "exp (- y) \<le> 1 - 1 / 2 ^ 53" .
  then have "ln (exp (- y)) \<le> ln (1 - 1 / 2 ^ 53 :: real)"
    by (subst ln_le_cancel_iff) simp_all
  then show "- (1 / 2 ^ 53) - 3 / 2 ^ 108 \<le> ln (1 - 1 / 2 ^ 53 :: real)"
    by (simp add: y_def)
  show "ln (1 - 1 / 2 ^ 53 :: real) \<le> - (1 / 2 ^ 53)"
    using ln_add_one_self_le_self2 [of "- (1 / 2 ^ 53) :: real"] by simp
qed

lemma binary64_values:
  "binary64 1 = 1"
  "binary64 10 = 10"
  "binary64 (1 / 4) = 1 / 4"
  "binary64 (1 / 2 ^ 53) = 1 / 2 ^ 53"
  "binary64 (1 / 2 ^ 55) = 1 / 2 ^ 55"
proof -
  show "binary64 1 = 1"
    by (rule binary64_exact [where k = 0 and n = "2 ^ 52"]) simp_all
  show "binary64 10 = 10"
    by (rule binary64_exact [where k = 3 and n = "10 * 2 ^ 49"]) simp_all
  show "binary64 (1 / 4) = 1 / 4"
    by (rule binary64_exact [where k = "- 2" and n = "2 ^ 52"]) simp_all
  show "binary64 (1 / 2 ^ 53) = 1 / 2 ^ 53"
    by (rule binary64_exact [where k = "- 53" and n = "2 ^ 52"]) simp_all
  show "binary64 (1 / 2 ^ 55) = 1 / 2 ^ 55"
    by (rule binary64_exact [where k = "- 55" and n = "2 ^ 52"]) simp_all
qed

lemma binary64_below_one:
  fixes x :: real
  assumes "1 - 1 / 2 ^ 53 \<le> x" and "x \<le> 1 - 1 / 2 ^ 53 + 1 / 2 ^ 55"
  shows "binary64 x = 1 - 1 / 2 ^ 53"
proof -
  have a: "2 powi (- 1) \<le> \<bar>x\<bar>" using assms by simp
  have b: "\<bar>x\<bar> < 2 powi (- 1 + 1)" using assms by simp
  have "\<bar>x / 2 powi (- 1 - 52) - of_int (2 ^ 53 - 1)\<bar> < 1 / 2"
  proof -
    have "x / 2 powi (- 1 - 52) = x * 2 ^ 53" by (simp add: power_int_minus field_simps)
    moreover have "2 ^ 53 - 1 \<le> x * 2 ^ 53" using assms(1) by (simp add: field_simps)
    moreover have "x * 2 ^ 53 \<le> 2 ^ 53 - 1 + 1 / 4" using assms(2) by (simp add: field_simps)
    ultimately show ?thesis by simp
  qed
  from binary64_near [OF a b this] show ?thesis by (simp add: power_int_minus field_simps)
qed

lemma binary64_ln:
  "binary64 (ln (1 - 1 / 2 ^ 53)) = - (1 / 2 ^ 53)"
proof -
  define x :: real where "x = ln (1 - 1 / 2 ^ 53)"
  have lo: "- (1 / 2 ^ 53) - 3 / 2 ^ 108 \<le> x" and hi: "x \<le> - (1 / 2 ^ 53)"
    unfolding x_def by (rule ln_tiny)+
  have a: "2 powi (- 53) \<le> \<bar>x\<bar>" using hi by (simp add: power_int_minus field_simps)
  have b: "\<bar>x\<bar> < 2 powi (- 53 + 1)" using lo hi by (simp add: power_int_minus field_simps)
  have "\<bar>x / 2 powi (- 53 - 52) - of_int (- (2 ^ 52))\<bar> < 1 / 2"
  proof -
    have "x / 2 powi (- 53 - 52) = x * 2 ^ 105" by (simp add: power_int_minus field_simps)
    moreover have "- (2 ^ 52) - 3 / 8 \<le> x * 2 ^ 105" using lo by (simp add: field_simps)
    moreover have "x * 2 ^ 105 \<le> - (2 ^ 52)" using hi by (simp add: field_simps)
    ultimately show ?thesis by simp
  qed
  from binary64_near [OF a b this] show ?thesis
    unfolding x_def by (simp add: power_int_minus field_simps)
qed

lemma exponential_rand_binary64_one:
  "exponential_rand_binary64 (Fin (1 / 2 ^ 53)) (Fin (3 / 4)) = Fin 1"
proof -
  have cut: "rnd (exp_c (dneg (Fin (1 / 2 ^ 53)))) = Fin (1 - 1 / 2 ^ 53)"
    using binary64_below_one [OF exp_tiny(1)] exp_tiny(2) by simp
  have "dsub (Fin 1) (Fin (3 / 4)) = Fin (1 / 4)" by (simp add: dsub_def)
  then have uniform: "rnd (dsub (Fin 1) (Fin (3 / 4))) = Fin (1 / 4)"
    by (simp only: rnd.simps binary64_values)
  have "dsub (Fin 1) (Fin (1 - 1 / 2 ^ 53)) = Fin (1 / 2 ^ 53)" by (simp add: dsub_def)
  then have d: "rnd (dsub (Fin 1) (Fin (1 - 1 / 2 ^ 53))) = Fin (1 / 2 ^ 53)"
    by (simp only: rnd.simps binary64_values)
  have "dmul (Fin (1 / 2 ^ 53)) (Fin (1 / 4)) = Fin (1 / 2 ^ 55)" by simp
  then have m: "rnd (dmul (Fin (1 / 2 ^ 53)) (Fin (1 / 4))) = Fin (1 / 2 ^ 55)"
    by (simp only: rnd.simps binary64_values)
  have "binary64 (1 - 1 / 2 ^ 53 + 1 / 2 ^ 55) = 1 - 1 / 2 ^ 53"
    by (rule binary64_below_one) simp_all
  then have inner: "rnd (dadd (Fin (1 - 1 / 2 ^ 53)) (Fin (1 / 2 ^ 55))) = Fin (1 - 1 / 2 ^ 53)"
    by (simp only: dadd.simps rnd.simps)
  have "log_c (Fin (1 - 1 / 2 ^ 53)) = Fin (ln (1 - 1 / 2 ^ 53))" by simp
  then have l: "rnd (log_c (Fin (1 - 1 / 2 ^ 53))) = Fin (- (1 / 2 ^ 53))"
    by (simp only: rnd.simps binary64_ln)
  have "ddiv (dneg (Fin (- (1 / 2 ^ 53)))) (Fin (1 / 2 ^ 53)) = Fin 1" by simp
  then have q: "rnd (ddiv (dneg (Fin (- (1 / 2 ^ 53)))) (Fin (1 / 2 ^ 53))) = Fin 1"
    by (simp only: rnd.simps binary64_values)
  show ?thesis
    unfolding exponential_rand_binary64_def Let_def cut uniform d m inner l q ..
qed

lemma binary64_small_values:
  "binary64 2 = 2"
  "binary64 4 = 4"
  "binary64 5 = 5"
  "binary64 (1 / 2) = 1 / 2"
  "binary64 (3 / 2) = 3 / 2"
  "binary64 (3 / 4) = 3 / 4"
  "binary64 (- 1) = - 1"
  "binary64 (- (1 / 2)) = - (1 / 2)"
proof -
  show "binary64 2 = 2"
    by (rule binary64_exact [where k = 1 and n = "2 ^ 52"]) simp_all
  show "binary64 4 = 4"
    by (rule binary64_exact [where k = 2 and n = "2 ^ 52"]) simp_all
  show "binary64 5 = 5"
    by (rule binary64_exact [where k = 2 and n = "5 * 2 ^ 50"]) simp_all
  show "binary64 (1 / 2) = 1 / 2"
    by (rule binary64_exact [where k = "- 1" and n = "2 ^ 52"]) simp_all
  show "binary64 (3 / 2) = 3 / 2"
    by (rule binary64_exact [where k = 0 and n = "3 * 2 ^ 51"]) simp_all
  show "binary64 (3 / 4) = 3 / 4"
    by (rule binary64_exact [where k = "- 1" and n = "3 * 2 ^ 51"]) simp_all
  show "binary64 (- 1) = - 1"
    by (rule binary64_exact [where k = 0 and n = "- (2 ^ 52)"]) simp_all
  show "binary64 (- (1 / 2)) = - (1 / 2)"
    by (rule binary64_exact [where k = "- 1" and n = "- (2 ^ 52)"]) simp_all
qed

text \<open>
  With the parameter \<open>2^-53\<close> and a draw of \<open>3/4\<close> the exponential sampler maps the width
  of the range itself.
\<close>

lemma getExponentialRand_three_quarters:
  "getExponentialRand (seeded 0x215C0E462AA9) mn mx (Fin (1 / 2 ^ 53))
     = (case double_to_int64 (rnd (dmul (rnd (int64_to_double (mx - mn + 1))) (Fin 1))) of
          None \<Rightarrow> (Inl UndefinedConversion, \<lparr>xseed = (0, 0, 0xC000)\<rparr>)
        | Some k \<Rightarrow> (Inr (mn + k), \<lparr>xseed = (0, 0, 0xC000)\<rparr>))"
proof -
  have e: "pg_erand48 (seeded 0x215C0E462AA9) = (Fin (3 / 4), \<lparr>xseed = (0, 0, 0xC000)\<rparr>)"
    by (simp add: pg_erand48_eq seeded_three_quarters draw_three_quarters)
  show ?thesis
    unfolding getExponentialRand_def e Let_def split_conv exponential_rand_binary64_one ..
qed

lemma width_ten: "rnd (dmul (rnd (int64_to_double ((10 :: int64) - 1 + 1))) (Fin 1)) = Fin 10"
proof -
  have "int64_to_double ((10 :: int64) - 1 + 1) = Fin 10" by (simp add: int64_to_double_def)
  then have w: "rnd (int64_to_double ((10 :: int64) - 1 + 1)) = Fin 10"
    by (simp only: rnd.simps binary64_values)
  have "dmul (Fin 10) (Fin 1) = Fin 10" by simp
  then show ?thesis unfolding w by (simp only: rnd.simps binary64_values)
qed

lemma width_one: "rnd (dmul (rnd (int64_to_double ((5 :: int64) - 5 + 1))) (Fin 1)) = Fin 1"
proof -
  have "int64_to_double ((5 :: int64) - 5 + 1) = Fin 1" by (simp add: int64_to_double_def)
  then have w: "rnd (int64_to_double ((5 :: int64) - 5 + 1)) = Fin 1"
    by (simp only: rnd.simps binary64_values)
  have "dmul (Fin 1) (Fin 1) = Fin 1" by simp
  then show ?thesis unfolding w by (simp only: rnd.simps binary64_values)
qed


lemma getExponentialRand_above_max:
  "getExponentialRand (seeded 0x215C0E462AA9) 1 10 (Fin (1 / 2 ^ 53))
     = (Inr 11, \<lparr>xseed = (0, 0, 0xC000)\<rparr>)"
  unfolding getExponentialRand_three_quarters width_ten by (simp add: trunc_def)

lemma getExponentialRand_single_value:
  "getExponentialRand (seeded 0x215C0E462AA9) 5 5 (Fin (1 / 2 ^ 53))
     = (Inr 6, \<lparr>xseed = (0, 0, 0xC000)\<rparr>)"
  unfolding getExponentialRand_three_quarters width_one by (simp add: trunc_def)


text \<open>
  The parameter \<open>2271629875608987 / 2^105\<close> is the \<open>double\<close> nearest to \<open>5.6e-17\<close>, a little
  above \<open>2^-54\<close>: \<open>cut\<close> still rounds to \<open>1 - 2^-53\<close> and the logarithm to \<open>- 2^-53\<close>, and
  \<open>rand\<close> is \<open>2^-53 / parameter\<close>, nearly 2.
\<close>

lemma binary64_just_below_one:
  fixes x :: real
  assumes "1 - 3 / 2 ^ 54 < x" and "x < 1 - 1 / 2 ^ 54"
  shows "binary64 x = 1 - 1 / 2 ^ 53"
proof -
  have a: "2 powi (- 1) \<le> \<bar>x\<bar>" using assms by simp
  have b: "\<bar>x\<bar> < 2 powi (- 1 + 1)" using assms by simp
  have "\<bar>x / 2 powi (- 1 - 52) - of_int (2 ^ 53 - 1)\<bar> < 1 / 2"
  proof -
    have e: "x / 2 powi (- 1 - 52) = x * 2 ^ 53" by (simp add: power_int_minus field_simps)
    have lo: "2 ^ 53 - 3 / 2 < x * 2 ^ 53" using assms(1) by (simp add: field_simps)
    have hi: "x * 2 ^ 53 < 2 ^ 53 - 1 / 2" using assms(2) by (simp add: field_simps)
    have "\<bar>x * 2 ^ 53 - (2 ^ 53 - 1)\<bar> < 1 / 2" using lo hi by linarith
    then show ?thesis unfolding e by simp
  qed
  from binary64_near [OF a b this] show ?thesis by (simp add: power_int_minus field_simps)
qed

lemma exp_small_parameter:
  "binary64 (exp (- (2271629875608987 / 2 ^ 105))) = 1 - 1 / 2 ^ 53"
proof -
  define p :: real where "p = 2271629875608987 / 2 ^ 105"
  have "1 - p \<le> exp (- p)" using exp_minus_ge [of p] by simp
  moreover have "1 - 3 / 2 ^ 54 < 1 - p" by (simp add: p_def)
  ultimately have lo: "1 - 3 / 2 ^ 54 < exp (- p)" by linarith
  have "exp (- p) \<le> 1 - p + p\<^sup>2 / 2" by (rule exp_minus_le_quadratic) (simp add: p_def)
  moreover have "1 - p + p\<^sup>2 / 2 < 1 - 1 / 2 ^ 54" by (simp add: p_def power2_eq_square)
  ultimately have hi: "exp (- p) < 1 - 1 / 2 ^ 54" by linarith
  show ?thesis unfolding p_def [symmetric] by (rule binary64_just_below_one [OF lo hi])
qed

lemma quotient_rounds:
  "binary64 (1 / 2 ^ 53 / (2271629875608987 / 2 ^ 105)) = 8928571428571429 / 2 ^ 52"
proof -
  define x :: real where "x = 1 / 2 ^ 53 / (2271629875608987 / 2 ^ 105)"
  have a: "2 powi 0 \<le> \<bar>x\<bar>" by (simp add: x_def)
  have b: "\<bar>x\<bar> < 2 powi (0 + 1)" by (simp add: x_def)
  have c: "\<bar>x / 2 powi (0 - 52) - of_int 8928571428571429\<bar> < 1 / 2"
    by (simp add: x_def power_int_minus field_simps)
  show ?thesis
    unfolding x_def [symmetric] using binary64_near [OF a b c]
    by (simp add: power_int_minus field_simps)
qed

lemma exponential_rand_binary64_near_two:
  "exponential_rand_binary64 (Fin (2271629875608987 / 2 ^ 105)) (Fin (3 / 4))
     = Fin (8928571428571429 / 2 ^ 52)"
proof -
  have "exp_c (dneg (Fin (2271629875608987 / 2 ^ 105)))
      = Fin (exp (- (2271629875608987 / 2 ^ 105)))" by simp
  then have cut: "rnd (exp_c (dneg (Fin (2271629875608987 / 2 ^ 105)))) = Fin (1 - 1 / 2 ^ 53)"
    by (simp only: rnd.simps exp_small_parameter)
  have "dsub (Fin 1) (Fin (3 / 4)) = Fin (1 / 4)" by (simp add: dsub_def)
  then have uniform: "rnd (dsub (Fin 1) (Fin (3 / 4))) = Fin (1 / 4)"
    by (simp only: rnd.simps binary64_values)
  have "dsub (Fin 1) (Fin (1 - 1 / 2 ^ 53)) = Fin (1 / 2 ^ 53)" by (simp add: dsub_def)
  then have d: "rnd (dsub (Fin 1) (Fin (1 - 1 / 2 ^ 53))) = Fin (1 / 2 ^ 53)"
    by (simp only: rnd.simps binary64_values)
  have "dmul (Fin (1 / 2 ^ 53)) (Fin (1 / 4)) = Fin (1 / 2 ^ 55)" by simp
  then have m: "rnd (dmul (Fin (1 / 2 ^ 53)) (Fin (1 / 4))) = Fin (1 / 2 ^ 55)"
    by (simp only: rnd.simps binary64_values)
  have "binary64 (1 - 1 / 2 ^ 53 + 1 / 2 ^ 55) = 1 - 1 / 2 ^ 53"
    by (rule binary64_below_one) simp_all
  then have inner: "rnd (dadd (Fin (1 - 1 / 2 ^ 53)) (Fin (1 / 2 ^ 55))) = Fin (1 - 1 / 2 ^ 53)"
    by (simp only: dadd.simps rnd.simps)
  have "log_c (Fin (1 - 1 / 2 ^ 53)) = Fin (ln (1 - 1 / 2 ^ 53))" by simp
  then have l: "rnd (log_c (Fin (1 - 1 / 2 ^ 53))) = Fin (- (1 / 2 ^ 53))"
    by (simp only: rnd.simps binary64_ln)
  have "ddiv (dneg (Fin (- (1 / 2 ^ 53)))) (Fin (2271629875608987 / 2 ^ 105))
      = Fin (1 / 2 ^ 53 / (2271629875608987 / 2 ^ 105))" by simp
  then have q: "rnd (ddiv (dneg (Fin (- (1 / 2 ^ 53)))) (Fin (2271629875608987 / 2 ^ 105)))
      = Fin (8928571428571429 / 2 ^ 52)"
    by (simp only: rnd.simps quotient_rounds)
  show ?thesis
    unfolding exponential_rand_binary64_def Let_def cut uniform d m inner l q ..
qed

lemma product_rounds:
  "binary64 (10 * (8928571428571429 / 2 ^ 52)) = 5580357142857143 / 2 ^ 48"
proof -
  define x :: real where "x = 10 * (8928571428571429 / 2 ^ 52)"
  have a: "2 powi 4 \<le> \<bar>x\<bar>" by (simp add: x_def)
  have b: "\<bar>x\<bar> < 2 powi (4 + 1)" by (simp add: x_def)
  have c: "\<bar>x / 2 powi (4 - 52) - of_int 5580357142857143\<bar> < 1 / 2"
    by (simp add: x_def power_int_minus field_simps)
  show ?thesis
    unfolding x_def [symmetric] using binary64_near [OF a b c]
    by (simp add: power_int_minus field_simps)
qed

lemma getExponentialRand_far_above_max:
  "getExponentialRand (seeded 0x215C0E462AA9) 1 10 (Fin (2271629875608987 / 2 ^ 105))
     = (Inr 20, \<lparr>xseed = (0, 0, 0xC000)\<rparr>)"
proof -
  have e: "pg_erand48 (seeded 0x215C0E462AA9) = (Fin (3 / 4), \<lparr>xseed = (0, 0, 0xC000)\<rparr>)"
    by (simp add: pg_erand48_eq seeded_three_quarters draw_three_quarters)
  have "int64_to_double ((10 :: int64) - 1 + 1) = Fin 10" by (simp add: int64_to_double_def)
  then have w: "rnd (int64_to_double ((10 :: int64) - 1 + 1)) = Fin 10"
    by (simp only: rnd.simps binary64_values)
  have p: "rnd (dmul (Fin 10) (Fin (8928571428571429 / 2 ^ 52)))
      = Fin (5580357142857143 / 2 ^ 48)"
    by (simp only: dmul.simps rnd.simps product_rounds)
  have c: "double_to_int64 (Fin (5580357142857143 / 2 ^ 48)) = Some 19"
    by (simp add: trunc_def)
  show ?thesis
    unfolding getExponentialRand_def e Let_def split_conv exponential_rand_binary64_near_two
      w p c by simp
qed

section \<open>The Gaussian sampler\<close>

lemma stdev_plus_parameter_rounds:
  "binary64 (4544314161289117 / 2 ^ 51 + 4544314161289118 / 2 ^ 51) = 4544314161289118 / 2 ^ 50"
proof -
  have "binary64 (4544314161289117 / 2 ^ 51 + 4544314161289118 / 2 ^ 51)
      = of_int (4544314161289117 + 1) * 2 powi (2 - 52)"
    by (rule binary64_tie) (simp_all add: power_int_minus)
  then show ?thesis by (simp add: power_int_minus)
qed

lemma twice_parameter_exact:
  "binary64 (4544314161289118 / 2 ^ 51 * 2) = 4544314161289118 / 2 ^ 50"
proof -
  have "binary64 (4544314161289118 / 2 ^ 51 * 2) = 4544314161289118 / 2 ^ 51 * 2"
    by (rule binary64_exact [where k = 2 and n = 4544314161289118])
      (simp_all add: power_int_minus)
  then show ?thesis by simp
qed

lemma gaussian_finish_binary64_one:
  "gaussian_finish_binary64 (Fin (4544314161289117 / 2 ^ 51)) 1 10
     (Fin (4544314161289118 / 2 ^ 51)) = (Fin 1, Inr 11)"
proof -
  have s: "rnd (dadd (Fin (4544314161289117 / 2 ^ 51)) (Fin (4544314161289118 / 2 ^ 51)))
      = Fin (4544314161289118 / 2 ^ 50)"
    by (simp only: dadd.simps rnd.simps stdev_plus_parameter_rounds)
  have t: "rnd (dmul (Fin (4544314161289118 / 2 ^ 51)) (Fin 2)) = Fin (4544314161289118 / 2 ^ 50)"
    by (simp only: dmul.simps rnd.simps twice_parameter_exact)
  have "ddiv (Fin (4544314161289118 / 2 ^ 50)) (Fin (4544314161289118 / 2 ^ 50)) = Fin 1"
    by simp
  then have q: "rnd (ddiv (Fin (4544314161289118 / 2 ^ 50)) (Fin (4544314161289118 / 2 ^ 50)))
      = Fin 1"
    by (simp only: rnd.simps binary64_values)
  have "int64_to_double ((10 :: int64) - 1 + 1) = Fin 10" by (simp add: int64_to_double_def)
  then have w: "rnd (int64_to_double ((10 :: int64) - 1 + 1)) = Fin 10"
    by (simp only: rnd.simps binary64_values)
  have "dmul (Fin 10) (Fin 1) = Fin 10" by simp
  then have p: "rnd (dmul (Fin 10) (Fin 1)) = Fin 10"
    by (simp only: rnd.simps binary64_values)
  have c: "double_to_int64 (Fin 10) = Some 10" by (simp add: trunc_def)
  show ?thesis
    unfolding gaussian_finish_binary64_def Let_def s t q w p c by simp
qed

text \<open>
  With a first draw of 0, \<open>rand1\<close> is 1, its logarithm is 0 and \<open>stdev\<close> is 0 whatever the
  second draw is: the first iteration accepts for every parameter above 0.
\<close>

lemma gaussian_loop_zero:
  assumes "0 < p"
  shows "gaussian_loop (Fin p) (seeded 0x615C0E462AA9) = Some (Fin 0, \<lparr>xseed = (11, 0, 0)\<rparr>)"
  apply (subst gaussian_loop.simps)
  using assms
  apply (simp add: pg_erand48_eq seeded_zero draw_zero draw_after_zero dsub_def M_PI_def
      binary64_values binary64_0 dge_def)
  done

lemma gaussian_finish_binary64_half:
  "gaussian_finish_binary64 (Fin 0) 1 10 (Fin (2 - 1 / 2 ^ 52)) = (Fin (1 / 2), Inr 6)"
proof -
  have p: "binary64 (2 - 1 / 2 ^ 52) = 2 - 1 / 2 ^ 52"
    by (rule binary64_exact [where k = 0 and n = "2 ^ 53 - 1"]) simp_all
  have q: "binary64 (4 - 1 / 2 ^ 51) = 4 - 1 / 2 ^ 51"
    by (rule binary64_exact [where k = 1 and n = "2 ^ 53 - 1"]) simp_all
  have "dadd (Fin 0) (Fin (2 - 1 / 2 ^ 52)) = Fin (2 - 1 / 2 ^ 52)" by simp
  then have s: "rnd (dadd (Fin 0) (Fin (2 - 1 / 2 ^ 52))) = Fin (2 - 1 / 2 ^ 52)"
    by (simp only: rnd.simps p)
  have "dmul (Fin (2 - 1 / 2 ^ 52)) (Fin 2) = Fin (4 - 1 / 2 ^ 51)" by simp
  then have t: "rnd (dmul (Fin (2 - 1 / 2 ^ 52)) (Fin 2)) = Fin (4 - 1 / 2 ^ 51)"
    by (simp only: rnd.simps q)
  have "ddiv (Fin (2 - 1 / 2 ^ 52)) (Fin (4 - 1 / 2 ^ 51)) = Fin (1 / 2)" by simp
  then have r: "rnd (ddiv (Fin (2 - 1 / 2 ^ 52)) (Fin (4 - 1 / 2 ^ 51))) = Fin (1 / 2)"
    by (simp only: rnd.simps binary64_small_values)
  have "int64_to_double ((10 :: int64) - 1 + 1) = Fin 10" by (simp add: int64_to_double_def)
  then have w: "rnd (int64_to_double ((10 :: int64) - 1 + 1)) = Fin 10"
    by (simp only: rnd.simps binary64_values)
  have "dmul (Fin 10) (Fin (1 / 2)) = Fin 5" by simp
  then have m: "rnd (dmul (Fin 10) (Fin (1 / 2))) = Fin 5"
    by (simp only: rnd.simps binary64_small_values)
  have c: "double_to_int64 (Fin 5) = Some 5" by (simp add: trunc_def)
  show ?thesis
    unfolding gaussian_finish_binary64_def Let_def s t r w m c by simp
qed


lemma gaussian_finish_binary64_single:
  "gaussian_finish_binary64 (Fin (4544314161289117 / 2 ^ 51)) 5 5
     (Fin (4544314161289118 / 2 ^ 51)) = (Fin 1, Inr 6)"
proof -
  have s: "rnd (dadd (Fin (4544314161289117 / 2 ^ 51)) (Fin (4544314161289118 / 2 ^ 51)))
      = Fin (4544314161289118 / 2 ^ 50)"
    by (simp only: dadd.simps rnd.simps stdev_plus_parameter_rounds)
  have t: "rnd (dmul (Fin (4544314161289118 / 2 ^ 51)) (Fin 2)) = Fin (4544314161289118 / 2 ^ 50)"
    by (simp only: dmul.simps rnd.simps twice_parameter_exact)
  have "ddiv (Fin (4544314161289118 / 2 ^ 50)) (Fin (4544314161289118 / 2 ^ 50)) = Fin 1"
    by simp
  then have q: "rnd (ddiv (Fin (4544314161289118 / 2 ^ 50)) (Fin (4544314161289118 / 2 ^ 50)))
      = Fin 1"
    by (simp only: rnd.simps binary64_values)
  have c: "double_to_int64 (Fin 1) = Some 1" by (simp add: trunc_def)
  show ?thesis
    unfolding gaussian_finish_binary64_def Let_def s t q width_one c by simp
qed

section \<open>The Zipfian sampler\<close>

lemma in_zipfian_range_check:
  assumes "in_zipfian_range d"
  shows "\<not> (dlt d MIN_ZIPFIAN_PARAM \<or> dgt d MAX_ZIPFIAN_PARAM)"
  using assms
  by (cases d) (auto simp: in_zipfian_range_def MIN_ZIPFIAN_PARAM_def MAX_ZIPFIAN_PARAM_def dgt_def)

lemma s_minus_one:
  "rnd (dsub (Fin (1983728407294147 / 2 ^ 50)) (Fin 1)) = Fin (857828500451523 / 2 ^ 50)"
proof -
  have "binary64 (857828500451523 / 2 ^ 50) = 857828500451523 / 2 ^ 50"
    by (rule binary64_exact [where k = "- 1" and n = "857828500451523 * 8"]) simp_all
  moreover have "dsub (Fin (1983728407294147 / 2 ^ 50)) (Fin 1) = Fin (857828500451523 / 2 ^ 50)"
    by (simp add: dsub_def)
  ultimately show ?thesis by (simp only: rnd.simps)
qed

lemma exponent_rounds:
  "rnd (ddiv (Fin (- 1)) (Fin (857828500451523 / 2 ^ 50))) = Fin (- (21 / 16))"
proof -
  define x :: real where "x = - 1 / (857828500451523 / 2 ^ 50)"
  have a: "2 powi 0 \<le> \<bar>x\<bar>" by (simp add: x_def)
  have b: "\<bar>x\<bar> < 2 powi (0 + 1)" by (simp add: x_def)
  have c: "\<bar>x / 2 powi (0 - 52) - of_int (- (21 * 2 ^ 48))\<bar> < 1 / 2"
    by (simp add: x_def power_int_minus field_simps)
  have "binary64 x = - (21 / 16)"
    using binary64_near [OF a b c] by (simp add: power_int_minus field_simps)
  moreover have "ddiv (Fin (- 1)) (Fin (857828500451523 / 2 ^ 50)) = Fin x"
    by (simp add: x_def)
  ultimately show ?thesis by (simp only: rnd.simps)
qed

lemma pow_tiny_draw: "(1 / 2 ^ 48 :: real) powr (- (21 / 16)) = 2 ^ 63"
proof -
  have e: "(1 / 2 ^ 48 :: real) = 2 powr (- 48)" by (simp add: powr_minus field_simps)
  have "(2 powr (- 48) :: real) powr (- (21 / 16)) = 2 powr 63" by (simp add: powr_powr)
  also have "\<dots> = 2 ^ 63" by simp
  finally show ?thesis unfolding e .
qed

lemma rank_rounds:
  "floor_c (rnd (pow_c (Fin (1 / 2 ^ 48)) (Fin (- (21 / 16))))) = Fin (2 ^ 63)"
proof -
  have "pow_c (Fin (1 / 2 ^ 48)) (Fin (- (21 / 16))) = Fin ((1 / 2 ^ 48) powr (- (21 / 16)))"
    by simp
  then have p: "pow_c (Fin (1 / 2 ^ 48)) (Fin (- (21 / 16))) = Fin (2 ^ 63)"
    by (simp only: pow_tiny_draw)
  have r: "binary64 (2 ^ 63) = 2 ^ 63"
    by (rule binary64_exact [where k = 63 and n = "2 ^ 52"]) simp_all
  have "floor_c (Fin (2 ^ 63)) = Fin (2 ^ 63)" by simp
  then show ?thesis by (simp only: p rnd.simps r)
qed

lemma t_rounds:
  "rnd (pow_c (rnd (dadd (Fin 1) (rnd (ddiv (Fin 1) (Fin (2 ^ 63))))))
        (Fin (857828500451523 / 2 ^ 50))) = Fin 1"
proof -
  have i: "binary64 (1 / 2 ^ 63) = 1 / 2 ^ 63"
    by (rule binary64_exact [where k = "- 63" and n = "2 ^ 52"]) simp_all
  have "ddiv (Fin 1) (Fin (2 ^ 63)) = Fin (1 / 2 ^ 63)" by simp
  then have inv: "rnd (ddiv (Fin 1) (Fin (2 ^ 63))) = Fin (1 / 2 ^ 63)"
    by (simp only: rnd.simps i)
  have "binary64 (1 + 1 / 2 ^ 63) = of_int (2 ^ 52) * 2 powi (0 - 52)"
    by (rule binary64_near) simp_all
  then have one: "binary64 (1 + 1 / 2 ^ 63) = 1" by simp
  have base: "rnd (dadd (Fin 1) (Fin (1 / 2 ^ 63))) = Fin 1"
    by (simp only: dadd.simps rnd.simps one)
  have "pow_c (Fin 1) (Fin (857828500451523 / 2 ^ 50)) = Fin 1" by simp
  then show ?thesis by (simp only: inv base rnd.simps binary64_values)
qed

lemma b_above_one:
  "1 < binary64 (2 powr (857828500451523 / 2 ^ 50))"
proof -
  define y :: real where "y = 2 powr (857828500451523 / 2 ^ 50)"
  have "(2 :: real) powr (1 / 2) \<le> y" unfolding y_def by (intro powr_mono) simp_all
  moreover have "5 / 4 \<le> sqrt (2 :: real)" by (rule real_le_rsqrt) (simp add: power2_eq_square)
  ultimately have lo: "5 / 4 \<le> y" by (simp add: powr_half_sqrt)
  have "y < 2 powr 1" unfolding y_def by (intro powr_less_mono) simp_all
  then have hi: "y < 2" by simp
  have a: "2 powi 0 \<le> \<bar>y\<bar>" using lo by simp
  have b: "\<bar>y\<bar> < 2 powi (0 + 1)" using lo hi by simp
  have e: "binary64 y = of_int (round_even (y / 2 powi (0 - 52))) * 2 powi (0 - 52)"
    by (rule binary64_eval [OF a b])
  have z: "y / 2 powi (0 - 52) = y * 2 ^ 52" by (simp add: power_int_minus field_simps)
  have "y * 2 ^ 52 - 1 / 2 \<le> of_int (round_even (y * 2 ^ 52))"
    using round_even_error [of "y * 2 ^ 52"] by linarith
  moreover have "(5 / 4) * 2 ^ 52 \<le> y * 2 ^ 52" using lo by simp
  ultimately have "2 ^ 52 < (of_int (round_even (y * 2 ^ 52)) :: real)" by simp
  then have "1 < of_int (round_even (y * 2 ^ 52)) * (2 :: real) powi (0 - 52)"
    by (simp add: power_int_minus field_simps)
  then show ?thesis unfolding y_def [symmetric] e z .
qed

lemma width_rounds:
  "rnd (int64_to_double 0x7FFFFFFFFFFFFFFF) = Fin (2 ^ 63)"
proof -
  have "binary64 (2 ^ 63 - 1) = of_int (2 ^ 53) * 2 powi (62 - 52)"
    by (rule binary64_near) simp_all
  then have "binary64 (2 ^ 63 - 1) = 2 ^ 63" by simp
  moreover have "int64_to_double 0x7FFFFFFFFFFFFFFF = Fin (2 ^ 63 - 1)"
    by (simp add: int64_to_double_def)
  ultimately show ?thesis by (simp only: rnd.simps)
qed

lemma zipfian_iteration_binary64_tiny:
  "zipfian_iteration_binary64 0x7FFFFFFFFFFFFFFF (Fin (1983728407294147 / 2 ^ 50))
     (Fin (1 / 2 ^ 48)) (Fin v) = (Fin (2 ^ 63), True)"
proof -
  define B where "B = binary64 (2 powr (857828500451523 / 2 ^ 50))"
  have B1: "1 < B" unfolding B_def by (rule b_above_one)
  have "pow_c (Fin 2) (Fin (857828500451523 / 2 ^ 50)) = Fin (2 powr (857828500451523 / 2 ^ 50))"
    by simp
  then have b: "rnd (pow_c (Fin 2) (Fin (857828500451523 / 2 ^ 50))) = Fin B"
    by (simp only: rnd.simps B_def)
  have t0: "rnd (dsub (Fin 1) (Fin 1)) = Fin 0" by (simp add: dsub_def binary64_0)
  have "dmul (rnd (dmul (Fin v) (Fin (2 ^ 63)))) (Fin 0) = Fin 0" by simp
  then have num: "rnd (dmul (rnd (dmul (Fin v) (Fin (2 ^ 63)))) (Fin 0)) = Fin 0"
    by (simp only: rnd.simps binary64_0)
  have c: "0 < binary64 (B - 1)" using B1 by (intro binary64_pos) simp
  have den: "rnd (dsub (Fin B) (Fin 1)) = Fin (binary64 (B - 1))" by (simp add: dsub_def)
  have "ddiv (Fin 0) (Fin (binary64 (B - 1))) = Fin 0" using c by simp
  then have lhs: "rnd (ddiv (Fin 0) (Fin (binary64 (B - 1)))) = Fin 0"
    by (simp only: rnd.simps binary64_0)
  have q: "0 < binary64 (1 / B)" using B1 by (intro binary64_pos) simp
  have rhs: "rnd (ddiv (Fin 1) (Fin B)) = Fin (binary64 (1 / B))" using B1 by simp
  have cmp: "dle (Fin 0) (Fin (binary64 (1 / B)))" using q by simp
  have le: "dle (Fin (2 ^ 63)) (Fin (2 ^ 63))" by simp
  show ?thesis
    unfolding zipfian_iteration_binary64_def Let_def s_minus_one exponent_rounds rank_rounds
      t_rounds b t0 num den lhs rhs width_rounds
    using cmp le by simp
qed

lemma getZipfianRand_degenerate:
  assumes "mx - mn + 1 \<le>s 1"
  shows "getZipfianRand st mn mx s = Some (Inr mn, st)"
  using assms by (simp add: getZipfianRand_def computeIterativeZipfian_def Let_def)

text \<open>
  For \<open>s = 2\<close> and a draw \<open>u = 1/2\<close> every operation of the iteration is exact: \<open>x = 2\<close>,
  \<open>t = 3/2\<close>, \<open>b = 2\<close>, and the test is \<open>v <= 3/4\<close>.
\<close>

lemma zipfian_iteration_binary64_half:
  "zipfian_iteration_binary64 2 (Fin 2) (Fin (1 / 2)) (Fin (140737488355339 / 2 ^ 48))
     = (Fin 2, True)"
proof -
  have v1: "binary64 (140737488355339 / 2 ^ 48) = 140737488355339 / 2 ^ 48"
    by (rule binary64_exact [where k = "- 1" and n = "140737488355339 * 32"]) simp_all
  have v2: "binary64 (140737488355339 / 2 ^ 47) = 140737488355339 / 2 ^ 47"
    by (rule binary64_exact [where k = 0 and n = "140737488355339 * 32"]) simp_all
  have "dsub (Fin 2) (Fin 1) = Fin 1" by (simp add: dsub_def)
  then have s1: "rnd (dsub (Fin 2) (Fin 1)) = Fin 1"
    by (simp only: rnd.simps binary64_values)
  have "pow_c (Fin 2) (Fin 1) = Fin 2" by simp
  then have b: "rnd (pow_c (Fin 2) (Fin 1)) = Fin 2"
    by (simp only: rnd.simps binary64_small_values)
  have "ddiv (Fin (- 1)) (Fin 1) = Fin (- 1)" by simp
  then have e: "rnd (ddiv (Fin (- 1)) (Fin 1)) = Fin (- 1)"
    by (simp only: rnd.simps binary64_small_values)
  have "pow_c (Fin (1 / 2)) (Fin (- 1)) = Fin 2" by (simp add: powr_minus field_simps)
  then have x: "floor_c (rnd (pow_c (Fin (1 / 2)) (Fin (- 1)))) = Fin 2"
    by (simp only: rnd.simps binary64_small_values) simp
  have "ddiv (Fin 1) (Fin 2) = Fin (1 / 2)" by simp
  then have i: "rnd (ddiv (Fin 1) (Fin 2)) = Fin (1 / 2)"
    by (simp only: rnd.simps binary64_small_values)
  have "dadd (Fin 1) (Fin (1 / 2)) = Fin (3 / 2)" by simp
  then have a: "rnd (dadd (Fin 1) (Fin (1 / 2))) = Fin (3 / 2)"
    by (simp only: rnd.simps binary64_small_values)
  have "pow_c (Fin (3 / 2)) (Fin 1) = Fin (3 / 2)" by simp
  then have t: "rnd (pow_c (Fin (3 / 2)) (Fin 1)) = Fin (3 / 2)"
    by (simp only: rnd.simps binary64_small_values)
  have "dmul (Fin (140737488355339 / 2 ^ 48)) (Fin 2) = Fin (140737488355339 / 2 ^ 47)"
    by simp
  then have vx: "rnd (dmul (Fin (140737488355339 / 2 ^ 48)) (Fin 2))
      = Fin (140737488355339 / 2 ^ 47)"
    by (simp only: rnd.simps v2)
  have "dsub (Fin (3 / 2)) (Fin 1) = Fin (1 / 2)" by (simp add: dsub_def)
  then have t1: "rnd (dsub (Fin (3 / 2)) (Fin 1)) = Fin (1 / 2)"
    by (simp only: rnd.simps binary64_small_values)
  have "dmul (Fin (140737488355339 / 2 ^ 47)) (Fin (1 / 2)) = Fin (140737488355339 / 2 ^ 48)"
    by simp
  then have num: "rnd (dmul (Fin (140737488355339 / 2 ^ 47)) (Fin (1 / 2)))
      = Fin (140737488355339 / 2 ^ 48)"
    by (simp only: rnd.simps v1)
  have "dsub (Fin 2) (Fin 1) = Fin 1" by (simp add: dsub_def)
  have "ddiv (Fin (140737488355339 / 2 ^ 48)) (Fin 1) = Fin (140737488355339 / 2 ^ 48)"
    by simp
  then have lhs: "rnd (ddiv (Fin (140737488355339 / 2 ^ 48)) (Fin 1))
      = Fin (140737488355339 / 2 ^ 48)"
    by (simp only: rnd.simps v1)
  have "ddiv (Fin (3 / 2)) (Fin 2) = Fin (3 / 4)" by simp
  then have rhs: "rnd (ddiv (Fin (3 / 2)) (Fin 2)) = Fin (3 / 4)"
    by (simp only: rnd.simps binary64_small_values)
  have "int64_to_double 2 = Fin 2" by (simp add: int64_to_double_def)
  then have n: "rnd (int64_to_double 2) = Fin 2"
    by (simp only: rnd.simps binary64_small_values)
  show ?thesis
    unfolding zipfian_iteration_binary64_def Let_def s1 b e x i a t vx t1 num lhs rhs n
    by simp
qed

lemma zipfian_loop_half:
  "zipfian_loop 2 (Fin 2) (seeded 0xE15C0E462AA9) = Some (Fin 2, \<lparr>xseed = (11, 0, 0x8000)\<rparr>)"
proof -
  have u: "pg_erand48 \<lparr>xseed = (0x2AA9, 0x0E46, 0xE15C)\<rparr>
      = (Fin (1 / 2), \<lparr>xseed = (0, 0, 0x8000)\<rparr>)"
    by (simp add: pg_erand48_eq draw_half)
  have v: "pg_erand48 \<lparr>xseed = (0, 0, 0x8000)\<rparr>
      = (Fin (140737488355339 / 2 ^ 48), \<lparr>xseed = (11, 0, 0x8000)\<rparr>)"
    by (simp add: pg_erand48_eq draw_after_half)
  show ?thesis
    by (subst zipfian_loop.simps)
      (simp only: seeded_half u v Let_def split_conv zipfian_iteration_binary64_half if_True)
qed

lemma zipfian_loop_tiny:
  "zipfian_loop 0x7FFFFFFFFFFFFFFF (Fin (1983728407294147 / 2 ^ 50)) (seeded 0x413C6A113E0E)
     = Some (Fin (2 ^ 63), \<lparr>xseed = (0xE678, 0xDEEC, 0x5)\<rparr>)"
  apply (subst zipfian_loop.simps)
  apply (simp only: seeded_tiny draw_tiny Let_def split_conv zipfian_iteration_binary64_tiny
      if_True)
  done

section \<open>The entry points\<close>


lemma random_zipfian_degenerate:
  assumes "ub <s lb" and "- (2 ^ 63) \<le> sint ub - sint lb + 1" and "in_zipfian_range s"
  shows "random_zipfian base (Some iseed) lb ub s = Some (Inr lb, seeded iseed)"
proof -
  have lt: "sint ub < sint lb" using assms(1) by (simp add: word_sless_alt)
  have "sint (ub - lb + 1) = sint ub - sint lb + 1"
    by (rule sint_reversed_width [OF lt assms(2)])
  then have n: "ub - lb + 1 \<le>s 1" using lt by (simp add: word_sle_eq)
  show ?thesis
    using in_zipfian_range_check [OF assms(3)]
    by (simp add: random_zipfian_def initRandomState_Some getZipfianRand_degenerate [OF n])
qed




section \<open>Seeding and the shared state\<close>

text \<open>
  C8. Seeding splits the entropy value into three 16-bit state words taken from its bits
  0-15, 16-31 and 32-47, so the 48-bit state is the low 48 bits of the entropy value. When
  the entropy source fails, \<open>initRandomState\<close> raises the seeding error and builds no
  state; every entry point then fails with it and leaves \<open>base_random_sequence\<close> as it
  was (for \<open>random_zipfian\<close>, unless the parameter check has failed before).
\<close>

theorem initRandomState_seeds_low_bits:
  "initRandomState None base = Inl SeedingFailed
   \<and> initRandomState (Some iseed) base = Inr (seeded iseed)
   \<and> xseed (seeded iseed) = (ucast iseed, ucast (drop_bit 16 iseed), ucast (drop_bit 32 iseed))
   \<and> seed_bits (seeded iseed) = take_bit 48 iseed
   \<and> random_exponential base None lb ub param = (Inl SeedingFailed, base)
   \<and> random_gaussian base None lb ub param = Some (Inl SeedingFailed, base)
   \<and> random_zipfian base None lb ub param =
        Some (Inl (if dlt param MIN_ZIPFIAN_PARAM \<or> dgt param MAX_ZIPFIAN_PARAM
                   then InvalidParameter else SeedingFailed), base)"
  by (simp add: initRandomState_None initRandomState_Some xseed_seeded seed_bits_seeded
      random_exponential_def random_gaussian_def random_zipfian_def)


section \<open>Validation of the arguments\<close>




text \<open>
  C3. \<open>random_gaussian\<close> does not check its parameter, although \<open>getGaussianRand\<close> notes
  that it "must really be checked beforehand" and \<open>random_zipfian\<close> does check: with the
  parameter \<open>2 - 2^-52\<close>, the largest \<open>double\<close> below 2.0, the call samples and returns 6.
  \<open>random_zipfian\<close> rejects a parameter just outside \<open>[1.001, 1000.0]\<close> before seeding and
  lets both ends of the interval through to the sampler.
\<close>

theorem random_gaussian_low_parameter:
  "random_gaussian base (Some 0x615C0E462AA9) 1 10 (Fin (2 - 1 / 2 ^ 52))
     = Some (Inr 6, \<lparr>xseed = (11, 0, 0)\<rparr>)
   \<and> random_zipfian base entropy lb ub (Fin (1001 / 1000 - 1 / 10 ^ 6))
     = Some (Inl InvalidParameter, base)
   \<and> random_zipfian base entropy lb ub (Fin (1000 + 1 / 10 ^ 6))
     = Some (Inl InvalidParameter, base)
   \<and> random_zipfian base (Some iseed) lb ub MIN_ZIPFIAN_PARAM
     = getZipfianRand (seeded iseed) lb ub MIN_ZIPFIAN_PARAM
   \<and> random_zipfian base (Some iseed) lb ub MAX_ZIPFIAN_PARAM
     = getZipfianRand (seeded iseed) lb ub MAX_ZIPFIAN_PARAM"
proof -
  have l: "gaussian_loop (Fin (2 - 1 / 2 ^ 52)) (seeded 0x615C0E462AA9)
      = Some (Fin 0, \<lparr>xseed = (11, 0, 0)\<rparr>)"
    by (rule gaussian_loop_zero) simp
  have "getGaussianRand (seeded 0x615C0E462AA9) 1 10 (Fin (2 - 1 / 2 ^ 52))
      = Some (Inr 6, \<lparr>xseed = (11, 0, 0)\<rparr>)"
    by (simp only: getGaussianRand_def l option.case prod.case
        gaussian_finish_binary64_half snd_conv)
  then show ?thesis
    by (simp add: random_gaussian_def random_zipfian_def initRandomState_Some
        MIN_ZIPFIAN_PARAM_def MAX_ZIPFIAN_PARAM_def dgt_def)
qed

text \<open>
  C10 as stated fails where \<open>max - min + 1\<close> wraps around: with \<open>min = 2^63 - 1\<close> and
  \<open>max = - 2^63\<close> the computed \<open>n\<close> is 2, the rejection loop runs, and with a first draw
  of \<open>1/2\<close> the result is \<open>min - 1 + 2\<close>, which wraps to \<open>- 2^63\<close>. And the call does
  raise an error when the entropy source fails.
\<close>

theorem random_zipfian_wrapped_range:
  "(0x8000000000000000 :: int64) <s 0x7FFFFFFFFFFFFFFF
   \<and> in_zipfian_range (Fin 2)
   \<and> random_zipfian \<lparr>xseed = (0, 0, 0)\<rparr> (Some 0xE15C0E462AA9)
        0x7FFFFFFFFFFFFFFF 0x8000000000000000 (Fin 2)
       = Some (Inr 0x8000000000000000, \<lparr>xseed = (11, 0, 0x8000)\<rparr>)
   \<and> random_zipfian \<lparr>xseed = (0, 0, 0)\<rparr> None 5 3 (Fin 2)
       = Some (Inl SeedingFailed, \<lparr>xseed = (0, 0, 0)\<rparr>)"
proof -
  have w: "(0x8000000000000000 :: int64) - 0x7FFFFFFFFFFFFFFF + 1 = 2" by simp
  have n: "\<not> (2 :: int64) \<le>s 1" by (simp add: word_sle_eq)
  have "getZipfianRand (seeded 0xE15C0E462AA9) 0x7FFFFFFFFFFFFFFF 0x8000000000000000 (Fin 2)
      = Some (Inr 0x8000000000000000, \<lparr>xseed = (11, 0, 0x8000)\<rparr>)"
    unfolding getZipfianRand_def computeIterativeZipfian_def Let_def w
    using n by (simp add: zipfian_loop_half trunc_def)
  then show ?thesis
    by (simp add: random_zipfian_def initRandomState_Some initRandomState_None
        in_zipfian_range_def MIN_ZIPFIAN_PARAM_def MAX_ZIPFIAN_PARAM_def dgt_def
        word_sless_alt)
qed

text \<open>
  C10, amended. For \<open>min > max\<close> with \<open>max - min + 1\<close> not below \<open>- 2^63\<close> (so that it
  does not wrap around), every \<open>s\<close> in \<open>[1.001, 1000.0]\<close> and an entropy source that
  delivers, \<open>random_zipfian\<close> returns \<open>min\<close> without an error and without a uniform draw:
  the state it leaves is the freshly seeded one.
\<close>

theorem random_zipfian_reversed_range:
  assumes "ub <s lb" and "- (2 ^ 63) \<le> sint ub - sint lb + 1" and "in_zipfian_range s"
  shows "random_zipfian base (Some iseed) lb ub s = Some (Inr lb, seeded iseed)"
  using assms by (rule random_zipfian_degenerate)

theorem random_zipfian_reversed_range_witness:
  "(3 :: int64) <s 5 \<and> - (2 ^ 63) \<le> sint (3 :: int64) - sint (5 :: int64) + 1
   \<and> in_zipfian_range (Fin 2)
   \<and> random_zipfian \<lparr>xseed = (1, 2, 3)\<rparr> (Some 0) 5 3 (Fin 2) = Some (Inr 5, seeded 0)"
proof -
  have a: "(3 :: int64) <s 5" by (simp add: word_sless_alt)
  have b: "- (2 ^ 63) \<le> sint (3 :: int64) - sint (5 :: int64) + 1" by simp
  have c: "in_zipfian_range (Fin 2)"
    by (simp add: in_zipfian_range_def MIN_ZIPFIAN_PARAM_def MAX_ZIPFIAN_PARAM_def)
  show ?thesis
    using a b c random_zipfian_reversed_range [OF a b c, of "\<lparr>xseed = (1, 2, 3)\<rparr>" 0]
    by simp
qed

section \<open>Samples outside the range\<close>

text \<open>
  C6. The exponential sampler draws once and has no loop, and in exact arithmetic its
  \<open>rand\<close> lies in \<open>[0, 1)\<close> for every parameter above 0 (\<open>exponential_rand_range\<close>). In
  binary64 arithmetic it does not: with the parameter \<open>2^-53\<close> and a draw of \<open>3/4\<close>,
  \<open>cut = exp(-parameter)\<close> rounds to \<open>1 - 2^-53\<close>, the sum \<open>cut + (1 - cut) * uniform\<close> rounds
  back to \<open>cut\<close>, its logarithm rounds to \<open>- 2^-53\<close>, and \<open>rand\<close> is exactly 1. For the range
  \<open>[1, 10]\<close> the sampler returns 11.
\<close>

theorem exponential_rand_reaches_one:
  "0 < (1 / 2 ^ 53 :: real)
   \<and> exponential_rand (1 / 2 ^ 53) (3 / 4) < 1
   \<and> exponential_rand_binary64 (Fin (1 / 2 ^ 53)) (Fin (3 / 4)) = Fin 1
   \<and> getExponentialRand (seeded 0x215C0E462AA9) 1 10 (Fin (1 / 2 ^ 53))
       = (Inr 11, \<lparr>xseed = (0, 0, 0xC000)\<rparr>)
   \<and> \<not> (11 :: int64) \<le>s 10"
proof -
  have ex: "exponential_rand (1 / 2 ^ 53) (3 / 4) < 1"
    using exponential_rand_range [of "1 / 2 ^ 53" "3 / 4"] by simp
  show ?thesis
    using ex exponential_rand_binary64_one getExponentialRand_above_max
    by (simp add: word_sle_eq)
qed

text \<open>
  C1. The range is valid (\<open>1 <= 10\<close>, and the width 10 does not overflow) and the
  parameter is above 0, and yet \<open>random_exponential\<close> returns a value above \<open>max\<close>: 11 for
  the parameter \<open>2^-53\<close>, where \<open>rand\<close> is 1, and 20 for the parameter
  \<open>2271629875608987 / 2^105\<close> (the \<open>double\<close> nearest to \<open>5.6e-17\<close>), where \<open>rand\<close> is about
  1.98; both with a draw of \<open>3/4\<close>.
\<close>

theorem random_exponential_above_max:
  "(1 :: int64) \<le>s 10
   \<and> sint ((10 :: int64) - 1 + 1) = sint (10 :: int64) - sint (1 :: int64) + 1
   \<and> 0 < (1 / 2 ^ 53 :: real)
   \<and> 0 < (2271629875608987 / 2 ^ 105 :: real)
   \<and> random_exponential base (Some 0x215C0E462AA9) 1 10 (Fin (1 / 2 ^ 53))
       = (Inr 11, \<lparr>xseed = (0, 0, 0xC000)\<rparr>)
   \<and> random_exponential base (Some 0x215C0E462AA9) 1 10 (Fin (2271629875608987 / 2 ^ 105))
       = (Inr 20, \<lparr>xseed = (0, 0, 0xC000)\<rparr>)
   \<and> \<not> (11 :: int64) \<le>s 10
   \<and> \<not> (20 :: int64) \<le>s 10"
proof -
  have a: "random_exponential base (Some 0x215C0E462AA9) 1 10 (Fin (1 / 2 ^ 53))
       = (Inr 11, \<lparr>xseed = (0, 0, 0xC000)\<rparr>)"
    by (simp only: random_exponential_def initRandomState_Some sum.case
        getExponentialRand_above_max)
  have b: "random_exponential base (Some 0x215C0E462AA9) 1 10
        (Fin (2271629875608987 / 2 ^ 105)) = (Inr 20, \<lparr>xseed = (0, 0, 0xC000)\<rparr>)"
    by (simp only: random_exponential_def initRandomState_Some sum.case
        getExponentialRand_far_above_max)
  show ?thesis using a b by (simp add: word_sle_eq)
qed

text \<open>
  C7. For \<open>min = max = 5\<close> the exponential sampler with the parameter \<open>2^-53\<close> and a draw
  of \<open>3/4\<close> has \<open>rand = 1\<close> and returns 6, and the Gaussian sampler with the parameter
  \<open>4544314161289118 / 2^51\<close> returns 6 for the accepted \<open>stdev\<close> just below the parameter.
  Only the Zipfian sampler returns \<open>min\<close> for every state and every \<open>s\<close>, drawing nothing.
\<close>

theorem single_value_range_exceeded:
  "random_exponential base (Some 0x215C0E462AA9) 5 5 (Fin (1 / 2 ^ 53))
       = (Inr 6, \<lparr>xseed = (0, 0, 0xC000)\<rparr>)
   \<and> \<not> dlt (Fin (4544314161289117 / 2 ^ 51)) (dneg (Fin (4544314161289118 / 2 ^ 51)))
   \<and> \<not> dge (Fin (4544314161289117 / 2 ^ 51)) (Fin (4544314161289118 / 2 ^ 51))
   \<and> gaussian_finish_binary64 (Fin (4544314161289117 / 2 ^ 51)) 5 5
       (Fin (4544314161289118 / 2 ^ 51)) = (Fin 1, Inr 6)
   \<and> (6 :: int64) \<noteq> 5
   \<and> getZipfianRand st m m s = Some (Inr m, st)"
proof -
  have a: "random_exponential base (Some 0x215C0E462AA9) 5 5 (Fin (1 / 2 ^ 53))
       = (Inr 6, \<lparr>xseed = (0, 0, 0xC000)\<rparr>)"
    by (simp only: random_exponential_def initRandomState_Some sum.case
        getExponentialRand_single_value)
  have z: "getZipfianRand st m m s = Some (Inr m, st)"
    by (rule getZipfianRand_degenerate) (simp add: word_sle_eq)
  show ?thesis using a z gaussian_finish_binary64_single by (simp add: dge_def)
qed

text \<open>
  C4. For \<open>min = 1\<close>, \<open>max = 2^63 - 1\<close> and \<open>s = 1983728407294147 / 2^50\<close> (the \<open>double\<close>
  nearest to 1.7619047619047619, inside \<open>[1.001, 1000.0]\<close>), \<open>n = 2^63 - 1\<close> and the seed
  \<open>0x413C6A113E0E\<close> gives the first draw \<open>u = 2^-48\<close>. Then \<open>- 1 / (s - 1)\<close> rounds to
  \<open>- 21/16\<close>, \<open>x = 2^63\<close>, \<open>1 + 1 / x\<close> rounds to 1, \<open>t = 1\<close>, the left side of the test is 0,
  and \<open>x <= n\<close> compares \<open>x\<close> with \<open>(double) n = 2^63\<close>: the first iteration accepts
  \<open>x = n + 1\<close>, a rank outside \<open>[1, n]\<close>, and the cast \<open>(int64) x\<close> is undefined.
\<close>

theorem zipfian_accepts_rank_above_n:
  "in_zipfian_range (Fin (1983728407294147 / 2 ^ 50))
   \<and> sint (0x7FFFFFFFFFFFFFFF - 1 + 1 :: int64) = 2 ^ 63 - 1
   \<and> pg_erand48 (seeded 0x413C6A113E0E) = (Fin (1 / 2 ^ 48), \<lparr>xseed = (1, 0, 0)\<rparr>)
   \<and> pg_erand48 \<lparr>xseed = (1, 0, 0)\<rparr>
       = (Fin (25214903928 / 2 ^ 48), \<lparr>xseed = (0xE678, 0xDEEC, 0x5)\<rparr>)
   \<and> zipfian_iteration_binary64 0x7FFFFFFFFFFFFFFF (Fin (1983728407294147 / 2 ^ 50))
        (Fin (1 / 2 ^ 48)) (Fin (25214903928 / 2 ^ 48)) = (Fin (2 ^ 63), True)
   \<and> double_to_int64 (Fin (2 ^ 63)) = None
   \<and> random_zipfian base (Some 0x413C6A113E0E) 1 0x7FFFFFFFFFFFFFFF
        (Fin (1983728407294147 / 2 ^ 50))
       = Some (Inl UndefinedConversion, \<lparr>xseed = (0xE678, 0xDEEC, 0x5)\<rparr>)"
proof -
  have r: "in_zipfian_range (Fin (1983728407294147 / 2 ^ 50))"
    by (simp add: in_zipfian_range_def MIN_ZIPFIAN_PARAM_def MAX_ZIPFIAN_PARAM_def)
  have n: "sint (0x7FFFFFFFFFFFFFFF - 1 + 1 :: int64) = 2 ^ 63 - 1" by simp
  have c: "double_to_int64 (Fin (2 ^ 63)) = None" by (simp add: trunc_def)
  have w: "(0x7FFFFFFFFFFFFFFF :: int64) - 1 + 1 = 0x7FFFFFFFFFFFFFFF" by simp
  have m: "\<not> (0x7FFFFFFFFFFFFFFF :: int64) \<le>s 1" by (simp add: word_sle_eq)
  have "getZipfianRand (seeded 0x413C6A113E0E) 1 0x7FFFFFFFFFFFFFFF
        (Fin (1983728407294147 / 2 ^ 50))
      = Some (Inl UndefinedConversion, \<lparr>xseed = (0xE678, 0xDEEC, 0x5)\<rparr>)"
    unfolding getZipfianRand_def computeIterativeZipfian_def Let_def w zipfian_loop_tiny
    using m c by simp
  then have z: "random_zipfian base (Some 0x413C6A113E0E) 1 0x7FFFFFFFFFFFFFFF
        (Fin (1983728407294147 / 2 ^ 50))
      = Some (Inl UndefinedConversion, \<lparr>xseed = (0xE678, 0xDEEC, 0x5)\<rparr>)"
    using in_zipfian_range_check [OF r]
    by (simp add: random_zipfian_def initRandomState_Some)
  show ?thesis
    using r n c z draw_tiny zipfian_iteration_binary64_tiny [of "25214903928 / 2 ^ 48"]
    by (simp only: seeded_tiny simp_thms)
qed

text \<open>
  C5. For the parameter \<open>p = 4544314161289118 / 2^51\<close> (the \<open>double\<close> 2.0180808851973344)
  and the \<open>double\<close> just below it, \<open>stdev = 4544314161289117 / 2^51\<close>, the loop test accepts
  \<open>stdev\<close>, the sum \<open>stdev + parameter\<close> lies halfway between two \<open>double\<close>s and rounds to
  \<open>2 * parameter\<close>, and \<open>rand\<close> is exactly 1, although the exact quotient is below 1. For
  the range \<open>[1, 10]\<close> the sampler returns 11.
\<close>

theorem gaussian_rand_reaches_one:
  "\<not> dlt (Fin (4544314161289117 / 2 ^ 51)) (dneg (Fin (4544314161289118 / 2 ^ 51)))
   \<and> \<not> dge (Fin (4544314161289117 / 2 ^ 51)) (Fin (4544314161289118 / 2 ^ 51))
   \<and> (4544314161289117 / 2 ^ 51 + 4544314161289118 / 2 ^ 51) / (4544314161289118 / 2 ^ 51 * 2)
       < (1 :: real)
   \<and> gaussian_finish_binary64 (Fin (4544314161289117 / 2 ^ 51)) 1 10
       (Fin (4544314161289118 / 2 ^ 51)) = (Fin 1, Inr 11)
   \<and> \<not> (11 :: int64) \<le>s 10"
  using gaussian_finish_binary64_one by (simp add: dge_def word_sle_eq)

end
